theory Spec2Isabelle
  imports Complex_Main "HOL-Library.AList"
begin

text \<open>
  A model of the rules engine of the Dablo repository (\<^verbatim>\<open>src/dablo/core\<close>) and of the
  king-safety term of its heuristic player (\<^verbatim>\<open>src/dablo/ai/players.py\<close>). Every Python
  function is a HOL function of the same name; a method takes the game as its first
  argument and returns the game after the call next to its result, and an exception is
  the left summand of the result.
\<close>

section \<open>Positions, pieces and players\<close>

text \<open>
  A position is the Python tuple \<^verbatim>\<open>(row, col)\<close> of two floats. Every coordinate the
  engine produces is a multiple of one half of small magnitude, on which binary floating
  point arithmetic is exact; the coordinates are therefore modelled as rationals.
\<close>

type_synonym pos = "rat \<times> rat"

text \<open>\<^verbatim>\<open>class PieceType(IntEnum)\<close> of \<^verbatim>\<open>core/pieces.py\<close>, with its \<^verbatim>\<open>.value\<close>.\<close>

datatype PieceType =
  EMPTY | P1_WARRIOR | P1_PRINCE | P1_KING | P2_WARRIOR | P2_PRINCE | P2_KING

fun pvalue :: "PieceType \<Rightarrow> int" where
  "pvalue EMPTY = 0"
| "pvalue P1_WARRIOR = 1"
| "pvalue P1_PRINCE = 2"
| "pvalue P1_KING = 3"
| "pvalue P2_WARRIOR = - 1"
| "pvalue P2_PRINCE = - 2"
| "pvalue P2_KING = - 3"

text \<open>\<^verbatim>\<open>class Player(IntEnum)\<close> of \<^verbatim>\<open>core/player.py\<close>.\<close>

datatype Player = P1 | P2

fun player_value :: "Player \<Rightarrow> int" where
  "player_value P1 = 1"
| "player_value P2 = - 1"

fun opponent :: "Player \<Rightarrow> Player" where
  "opponent P1 = P2"
| "opponent P2 = P1"

text \<open>\<^verbatim>\<open>can_capture\<close> of \<^verbatim>\<open>core/pieces.py\<close>.\<close>

definition can_capture :: "PieceType \<Rightarrow> PieceType \<Rightarrow> bool" where
  "can_capture attacker target =
     (if target = EMPTY \<or> attacker = EMPTY then False
      else if (pvalue attacker > 0) = (pvalue target > 0) then False
      else \<bar>pvalue attacker\<bar> \<ge> \<bar>pvalue target\<bar>)"

section \<open>The board graph\<close>

text \<open>
  \<^verbatim>\<open>DabloGame._create_board_graph\<close>. The Python builds the set \<^verbatim>\<open>all_nodes\<close> in two
  nested \<^verbatim>\<open>range\<close> loops and then a dict from every node to the list of those of its
  potential neighbours that are nodes. A dict keeps its keys in insertion order, so it
  is an association list here; the order in which Python iterates the set
  \<^verbatim>\<open>all_nodes\<close> is left to the hash table, and the order of generation stands for it.
\<close>

definition all_nodes :: "int \<Rightarrow> int \<Rightarrow> pos list" where
  "all_nodes rows cols =
     concat (map (\<lambda>r_int. concat (map (\<lambda>c_int.
        (of_int r_int, of_int c_int) #
        (if r_int < rows - 1 \<and> c_int < cols - 1
         then [(of_int r_int + 1/2, of_int c_int + 1/2)] else []))
      [0..cols - 1])) [0..rows - 1])"

text \<open>Python's \<^verbatim>\<open>int(x)\<close> on a float truncates towards zero.\<close>

definition py_int :: "rat \<Rightarrow> int" where
  "py_int x = (if 0 \<le> x then \<lfloor>x\<rfloor> else \<lceil>x\<rceil>)"

definition is_primary :: "pos \<Rightarrow> bool" where
  "is_primary p = (fst p = of_int (py_int (fst p)) \<and> snd p = of_int (py_int (snd p)))"

definition potential_neighbors :: "pos \<Rightarrow> pos list" where
  "potential_neighbors p =
     (let r = fst p; c = snd p in
      if is_primary p then
        [(r - 1, c), (r + 1, c), (r, c - 1), (r, c + 1),
         (r - 1/2, c - 1/2), (r - 1/2, c + 1/2), (r + 1/2, c - 1/2), (r + 1/2, c + 1/2)]
      else
        [(r - 1/2, c - 1/2), (r - 1/2, c + 1/2), (r + 1/2, c - 1/2), (r + 1/2, c + 1/2)])"

definition create_board_graph :: "int \<Rightarrow> int \<Rightarrow> (pos \<times> pos list) list" where
  "create_board_graph rows cols =
     (let nodes = all_nodes rows cols in
      map (\<lambda>current_pos.
             (current_pos, filter (\<lambda>neighbor. neighbor \<in> set nodes)
                                  (potential_neighbors current_pos)))
          nodes)"

text \<open>\<^verbatim>\<open>MovementValidator.is_adjacent\<close>: \<^verbatim>\<open>pos2 in adjacency_graph.get(pos1, [])\<close>.\<close>

definition is_adjacent :: "pos \<Rightarrow> pos \<Rightarrow> (pos \<times> pos list) list \<Rightarrow> bool" where
  "is_adjacent pos1 pos2 adjacency_graph =
     (pos2 \<in> set (case map_of adjacency_graph pos1 of None \<Rightarrow> [] | Some ns \<Rightarrow> ns))"

text \<open>\<^verbatim>\<open>MovementValidator.is_forward_move\<close>.\<close>

definition is_forward_move :: "pos \<Rightarrow> pos \<Rightarrow> bool \<Rightarrow> bool" where
  "is_forward_move from_p to_p is_player1 =
     (let row_diff = fst to_p - fst from_p in
      if is_player1 then row_diff < 0 else row_diff > 0)"

text \<open>\<^verbatim>\<open>MovementValidator.calculate_capture_landing\<close>.\<close>

definition calculate_capture_landing :: "pos \<Rightarrow> pos \<Rightarrow> pos" where
  "calculate_capture_landing from_p capture_p =
     (let row_diff = fst capture_p - fst from_p;
          col_diff = snd capture_p - snd from_p in
      if (\<bar>row_diff\<bar>, \<bar>col_diff\<bar>) \<in> {(1/2, 3/2), (3/2, 1/2)} then
        (fst capture_p + (if row_diff > 0 then 1/2 else - (1/2)),
         snd capture_p + (if col_diff > 0 then 1/2 else - (1/2)))
      else
        (fst capture_p + row_diff, snd capture_p + col_diff))"

text \<open>
  The Euclidean distance of two positions, as \<^verbatim>\<open>Move.distance\<close> computes it, and the
  test that three positions lie on one line (the cross product of the two differences
  is zero).
\<close>

definition distance :: "pos \<Rightarrow> pos \<Rightarrow> real" where
  "distance a b = sqrt (of_rat ((fst b - fst a)\<^sup>2 + (snd b - snd a)\<^sup>2))"

definition collinear3 :: "pos \<Rightarrow> pos \<Rightarrow> pos \<Rightarrow> bool" where
  "collinear3 a b c =
     ((fst b - fst a) * (snd c - snd a) - (snd b - snd a) * (fst c - fst a) = 0)"

section \<open>Moves, configuration and the game state\<close>

text \<open>\<^verbatim>\<open>class Move\<close> of \<^verbatim>\<open>core/rules.py\<close> with its computed field \<^verbatim>\<open>is_capture\<close>.\<close>

record Move =
  from_pos :: pos
  to_pos :: pos
  capture_pos :: "pos option"

definition is_capture :: "Move \<Rightarrow> bool" where
  "is_capture m = (capture_pos m \<noteq> None)"

datatype WinReason = KING_CAPTURE | LONE_KING | MOVE_LIMIT | STALEMATE | KINGS_ONLY_DRAW

datatype py_error = KeyError

text \<open>
  \<^verbatim>\<open>class DabloConfig\<close> of \<^verbatim>\<open>core/config.py\<close>. The two set-up dicts are association
  lists in the order of their items. \<open>valid_config\<close> is the range validation of the
  pydantic fields (\<^verbatim>\<open>ge\<close>, \<^verbatim>\<open>le\<close>), which rejects every other configuration when it is
  constructed.
\<close>

record DabloConfig =
  board_rows :: int
  board_cols :: int
  move_limit :: int
  p1_setup :: "(PieceType \<times> pos list) list"
  p2_setup :: "(PieceType \<times> pos list) list"

definition valid_config :: "DabloConfig \<Rightarrow> bool" where
  "valid_config cfg =
     (3 \<le> board_rows cfg \<and> board_rows cfg \<le> 10 \<and>
      3 \<le> board_cols cfg \<and> board_cols cfg \<le> 10 \<and>
      50 \<le> move_limit cfg \<and> move_limit cfg \<le> 2000)"

text \<open>
  The attributes of \<^verbatim>\<open>class DabloGame\<close> (\<^verbatim>\<open>core/game.py\<close>). The dict \<^verbatim>\<open>board_state\<close> and the
  dict \<^verbatim>\<open>nodes\<close> are association lists in insertion order: \<^verbatim>\<open>d.get(k)\<close> is \<open>map_of d k\<close>
  and \<^verbatim>\<open>d[k] = v\<close> is \<open>AList.update k v d\<close>, which overwrites in place or appends a new
  key. The Python sets \<^verbatim>\<open>p1_pieces\<close> and \<^verbatim>\<open>p2_pieces\<close> are the lists of their elements in
  the order the set is iterated; \<open>set_add\<close> and \<open>set_discard\<close> keep such a list free of
  duplicates. The attributes \<^verbatim>\<open>positions\<close> and \<^verbatim>\<open>initial_piece_counts\<close>, which only the
  renderer and the reward code read, are left out.
\<close>

record DabloGame =
  config :: DabloConfig
  board_state :: "(pos \<times> PieceType) list"
  nodes :: "(pos \<times> pos list) list"
  current_player :: Player
  game_over :: bool
  winner :: "Player option"
  win_reason :: "WinReason option"
  capture_sequence :: bool
  capturing_piece :: "pos option"
  move_count :: int
  last_captured_piece :: "PieceType option"
  p1_pieces :: "pos list"
  p2_pieces :: "pos list"

definition set_add :: "'a \<Rightarrow> 'a list \<Rightarrow> 'a list" where
  "set_add x xs = (if x \<in> set xs then xs else xs @ [x])"

definition set_discard :: "'a \<Rightarrow> 'a list \<Rightarrow> 'a list" where
  "set_discard x xs = removeAll x xs"

text \<open>\<^verbatim>\<open>DabloGame.add_piece\<close>: the returned flag and the game after the call.\<close>

definition add_piece :: "DabloGame \<Rightarrow> pos \<Rightarrow> PieceType \<Rightarrow> bool \<times> DabloGame" where
  "add_piece g p piece_type =
     (case map_of (board_state g) p of
        None \<Rightarrow> (False, g)
      | Some occupant \<Rightarrow>
          if occupant \<noteq> EMPTY then (False, g)
          else
            (let g1 = g\<lparr>board_state := AList.update p piece_type (board_state g)\<rparr> in
             (True,
              if pvalue piece_type > 0 then g1\<lparr>p1_pieces := set_add p (p1_pieces g1)\<rparr>
              else if pvalue piece_type < 0 then g1\<lparr>p2_pieces := set_add p (p2_pieces g1)\<rparr>
              else g1)))"

text \<open>\<^verbatim>\<open>DabloGame.remove_piece\<close>: the removed piece and the game after the call.\<close>

definition remove_piece :: "DabloGame \<Rightarrow> pos \<Rightarrow> PieceType \<times> DabloGame" where
  "remove_piece g p =
     (let removed_piece = (case map_of (board_state g) p of None \<Rightarrow> EMPTY | Some x \<Rightarrow> x);
          g1 = g\<lparr>board_state := AList.update p EMPTY (board_state g)\<rparr> in
      (removed_piece,
       if pvalue removed_piece > 0 then g1\<lparr>p1_pieces := set_discard p (p1_pieces g1)\<rparr>
       else if pvalue removed_piece < 0 then g1\<lparr>p2_pieces := set_discard p (p2_pieces g1)\<rparr>
       else g1))"

text \<open>\<^verbatim>\<open>DabloGame.clear_board\<close>.\<close>

definition clear_board :: "DabloGame \<Rightarrow> DabloGame" where
  "clear_board g =
     g\<lparr>board_state := map (\<lambda>(p, _). (p, EMPTY)) (board_state g),
       p1_pieces := [], p2_pieces := []\<rparr>"

text \<open>\<^verbatim>\<open>DabloGame.setup_custom_position\<close>; \<open>pieces\<close> is the dict in the order of its items.\<close>

definition setup_custom_position :: "DabloGame \<Rightarrow> (pos \<times> PieceType) list \<Rightarrow> DabloGame" where
  "setup_custom_position g pieces =
     foldl (\<lambda>g' (p, piece_type).
              if piece_type \<noteq> EMPTY then snd (add_piece g' p piece_type) else g')
           (clear_board g) pieces"

text \<open>\<^verbatim>\<open>DabloGame._setup_initial_pieces\<close>: the two nested loops over a set-up dict.\<close>

definition add_setup :: "DabloGame \<Rightarrow> (PieceType \<times> pos list) list \<Rightarrow> DabloGame" where
  "add_setup g setup =
     foldl (\<lambda>g' (piece_type, positions).
              foldl (\<lambda>g'' p. snd (add_piece g'' p piece_type)) g' positions)
           g setup"

definition setup_initial_pieces :: "DabloGame \<Rightarrow> DabloGame" where
  "setup_initial_pieces g =
     (let g1 = g\<lparr>board_state := map (\<lambda>p. (p, EMPTY)) (map fst (nodes g)),
                 p1_pieces := [], p2_pieces := []\<rparr>;
          g2 = add_setup g1 (p1_setup (config g1))
      in add_setup g2 (p2_setup (config g2)))"

text \<open>\<^verbatim>\<open>DabloGame.__init__(config, initial_state)\<close>.\<close>

definition DabloGame_init :: "DabloConfig \<Rightarrow> string \<Rightarrow> DabloGame" where
  "DabloGame_init cfg initial_state =
     (let g = \<lparr>config = cfg, board_state = [],
                nodes = create_board_graph (board_rows cfg) (board_cols cfg),
                current_player = P1, game_over = False, winner = None, win_reason = None,
                capture_sequence = False, capturing_piece = None, move_count = 0,
                last_captured_piece = None, p1_pieces = [], p2_pieces = []\<rparr>
      in if \<not> (initial_state = ''empty'') then setup_initial_pieces g else g)"

section \<open>Move validation and generation\<close>

text \<open>\<^verbatim>\<open>GameRules.is_valid_regular_move\<close> and \<^verbatim>\<open>GameRules.is_valid_capture_move\<close>.\<close>

definition is_valid_regular_move ::
  "pos \<Rightarrow> pos \<Rightarrow> PieceType \<Rightarrow> (pos \<times> PieceType) list \<Rightarrow> (pos \<times> pos list) list \<Rightarrow> bool" where
  "is_valid_regular_move from_p to_p piece bs adjacency_graph =
     (if map_of bs to_p \<noteq> Some EMPTY then False
      else if \<not> is_adjacent from_p to_p adjacency_graph then False
      else if \<not> is_forward_move from_p to_p (pvalue piece > 0) then False
      else True)"

definition is_valid_capture_move ::
  "pos \<Rightarrow> pos \<Rightarrow> pos \<Rightarrow> PieceType \<Rightarrow> PieceType \<Rightarrow> (pos \<times> PieceType) list \<Rightarrow>
   (pos \<times> pos list) list \<Rightarrow> bool" where
  "is_valid_capture_move from_p capture_p landing_p attacker target bs adjacency_graph =
     (if map_of bs landing_p \<noteq> Some EMPTY then False
      else if \<not> can_capture attacker target then False
      else if \<not> is_adjacent from_p capture_p adjacency_graph then False
      else if landing_p \<noteq> calculate_capture_landing from_p capture_p then False
      else True)"

text \<open>
  \<^verbatim>\<open>DabloGame.get_valid_moves\<close>. \<open>moves_towards\<close> is the body of its loop over the
  neighbours of \<open>p\<close>: the moves that one neighbour contributes.
\<close>

definition moves_towards :: "DabloGame \<Rightarrow> pos \<Rightarrow> PieceType \<Rightarrow> pos \<Rightarrow> Move list" where
  "moves_towards g p piece neighbor_pos =
     (let target_piece =
            (case map_of (board_state g) neighbor_pos of None \<Rightarrow> EMPTY | Some t \<Rightarrow> t) in
      if target_piece = EMPTY then
        (if is_valid_regular_move p neighbor_pos piece (board_state g) (nodes g)
         then [\<lparr>from_pos = p, to_pos = neighbor_pos, capture_pos = None\<rparr>] else [])
      else if pvalue piece * pvalue target_piece < 0 then
        (let landing_pos = calculate_capture_landing p neighbor_pos in
         if is_valid_capture_move p neighbor_pos landing_pos piece target_piece
              (board_state g) (nodes g)
         then [\<lparr>from_pos = p, to_pos = landing_pos, capture_pos = Some neighbor_pos\<rparr>]
         else [])
      else [])"

definition get_valid_moves :: "DabloGame \<Rightarrow> pos \<Rightarrow> Move list" where
  "get_valid_moves g p =
     (case map_of (board_state g) p of
        None \<Rightarrow> []
      | Some piece \<Rightarrow>
          if piece = EMPTY \<or> (pvalue piece > 0) \<noteq> (player_value (current_player g) > 0)
          then []
          else concat (map (moves_towards g p piece)
                 (case map_of (nodes g) p of None \<Rightarrow> [] | Some ns \<Rightarrow> ns)))"

text \<open>\<^verbatim>\<open>DabloGame.get_all_valid_moves\<close>.\<close>

definition get_all_valid_moves :: "DabloGame \<Rightarrow> Move list" where
  "get_all_valid_moves g =
     (case (if capture_sequence g then capturing_piece g else None) of
        Some p \<Rightarrow> get_valid_moves g p
      | None \<Rightarrow>
          concat (map (get_valid_moves g)
            (if current_player g = P1 then p1_pieces g else p2_pieces g)))"

section \<open>Win detection and move execution\<close>

text \<open>
  \<^verbatim>\<open>DabloGame.get_king_position\<close>. \<^verbatim>\<open>self.board_state[pos]\<close> raises \<^verbatim>\<open>KeyError\<close> for a
  tracked position that is no key of the board; \<open>find_king\<close> is the loop.
\<close>

fun find_king :: "(pos \<times> PieceType) list \<Rightarrow> PieceType \<Rightarrow> pos list \<Rightarrow> py_error + pos option" where
  "find_king bs king_type [] = Inr None"
| "find_king bs king_type (p # ps) =
     (case map_of bs p of
        None \<Rightarrow> Inl KeyError
      | Some x \<Rightarrow> if x = king_type then Inr (Some p) else find_king bs king_type ps)"

definition get_king_position :: "DabloGame \<Rightarrow> Player \<Rightarrow> py_error + pos option" where
  "get_king_position g player =
     find_king (board_state g) (if player = P1 then P1_KING else P2_KING)
       (if player = P1 then p1_pieces g else p2_pieces g)"

text \<open>\<^verbatim>\<open>GameRules.check_win_condition\<close>.\<close>

definition check_win_condition ::
  "int \<Rightarrow> int \<Rightarrow> bool \<Rightarrow> bool \<Rightarrow> int \<Rightarrow> int \<Rightarrow> bool \<Rightarrow> Player \<Rightarrow>
   Player option \<times> WinReason option" where
  "check_win_condition p1_pieces_count p2_pieces_count p1_king_exists p2_king_exists
     mv_count mv_limit has_valid_moves cur_player =
     (if \<not> p1_king_exists then (Some P2, Some KING_CAPTURE)
      else if \<not> p2_king_exists then (Some P1, Some KING_CAPTURE)
      else if p1_pieces_count = 1 \<and> p2_pieces_count = 1 then (None, Some KINGS_ONLY_DRAW)
      else if p1_pieces_count = 1 \<and> p2_pieces_count > 1 then (Some P2, Some LONE_KING)
      else if p2_pieces_count = 1 \<and> p1_pieces_count > 1 then (Some P1, Some LONE_KING)
      else if mv_count \<ge> mv_limit then (None, Some MOVE_LIMIT)
      else if \<not> has_valid_moves then (Some (opponent cur_player), Some STALEMATE)
      else (None, None))"

text \<open>\<^verbatim>\<open>DabloGame.end_game\<close> and \<^verbatim>\<open>DabloGame._check_game_state\<close>.\<close>

definition end_game :: "DabloGame \<Rightarrow> Player \<Rightarrow> WinReason option \<Rightarrow> DabloGame" where
  "end_game g w reason = g\<lparr>game_over := True, winner := Some w, win_reason := reason\<rparr>"

definition check_game_state :: "DabloGame \<Rightarrow> py_error + DabloGame" where
  "check_game_state g =
     (let has_valid_moves = (get_all_valid_moves g \<noteq> []) in
      case get_king_position g P1 of
        Inl e \<Rightarrow> Inl e
      | Inr p1_king_pos \<Rightarrow>
         (case get_king_position g P2 of
            Inl e \<Rightarrow> Inl e
          | Inr p2_king_pos \<Rightarrow>
             (case check_win_condition (int (length (p1_pieces g))) (int (length (p2_pieces g)))
                     (p1_king_pos \<noteq> None) (p2_king_pos \<noteq> None)
                     (move_count g) (move_limit (config g)) has_valid_moves (current_player g) of
                (Some w, reason) \<Rightarrow> Inr (end_game g w reason)
              | (None, reason) \<Rightarrow> Inr g)))"

text \<open>
  The dict \<^verbatim>\<open>move_info\<close> that \<^verbatim>\<open>make_move\<close> returns: the key \<^verbatim>\<open>error\<close> alone on the
  rejected call, the other keys on an executed one.
\<close>

record MoveInfo =
  info_error :: "string option"
  info_is_capture :: bool
  chain_capture_available :: bool
  piece_moved :: "PieceType option"
  captured_piece :: "PieceType option"

text \<open>
  \<^verbatim>\<open>DabloGame.make_move\<close>. \<open>end_turn\<close> is its tail after the comment \<^verbatim>\<open># End turn\<close>. The
  result is the returned pair together with the game after the call.
\<close>

definition end_turn :: "DabloGame \<Rightarrow> MoveInfo \<Rightarrow> py_error + (bool \<times> MoveInfo \<times> DabloGame)" where
  "end_turn g move_info =
     (case check_game_state
             (g\<lparr>capture_sequence := False, capturing_piece := None,
                current_player := opponent (current_player g)\<rparr>) of
        Inl e \<Rightarrow> Inl e
      | Inr g' \<Rightarrow> Inr (True, move_info, g'))"

definition make_move :: "DabloGame \<Rightarrow> Move \<Rightarrow> py_error + (bool \<times> MoveInfo \<times> DabloGame)" where
  "make_move g move =
     (if game_over g then
        Inr (False,
             \<lparr>info_error = Some ''Game is over'', info_is_capture = False,
              chain_capture_available = False, piece_moved = None, captured_piece = None\<rparr>,
             g)
      else
        (let (moving_piece, g1) = remove_piece g (from_pos move);
             move_info = \<lparr>info_error = None, info_is_capture = False,
                          chain_capture_available = False, piece_moved = Some moving_piece,
                          captured_piece = None\<rparr>;
             g2 = snd (add_piece g1 (to_pos move) moving_piece);
             g3 = g2\<lparr>move_count := move_count g2 + 1\<rparr>
         in case capture_pos move of
              None \<Rightarrow> end_turn g3 move_info
            | Some capture_p \<Rightarrow>
               (let (captured, g4) = remove_piece g3 capture_p;
                    g5 = g4\<lparr>last_captured_piece := Some captured\<rparr>;
                    move_info2 = move_info\<lparr>info_is_capture := True,
                                             captured_piece := Some captured\<rparr>;
                    additional_captures =
                      filter (\<lambda>m. to_pos m \<noteq> from_pos move)
                        (filter is_capture (get_valid_moves g5 (to_pos move)))
                in if additional_captures \<noteq> [] then
                     Inr (True, move_info2\<lparr>chain_capture_available := True\<rparr>,
                          g5\<lparr>capture_sequence := True,
                             capturing_piece := Some (to_pos move)\<rparr>)
                   else end_turn g5 move_info2)))"

section \<open>The public mutators as operations\<close>

text \<open>
  The invariant that ties the two piece sets to the board mapping: a position is in a
  player's set if and only if the mapping holds a piece of that player there (a positive
  \<^verbatim>\<open>value\<close> for player 1, a negative one for player 2).
\<close>

definition pieces_in_sync :: "DabloGame \<Rightarrow> bool" where
  "pieces_in_sync g =
     (\<forall>p. (p \<in> set (p1_pieces g) \<longleftrightarrow>
              (\<exists>piece. map_of (board_state g) p = Some piece \<and> pvalue piece > 0)) \<and>
          (p \<in> set (p2_pieces g) \<longleftrightarrow>
              (\<exists>piece. map_of (board_state g) p = Some piece \<and> pvalue piece < 0)))"

text \<open>
  One call of a public mutator of \<^verbatim>\<open>DabloGame\<close>, and a sequence of such calls on a game;
  an exception raised by a call ends the sequence.
\<close>

datatype game_op =
    AddPiece pos PieceType
  | RemovePiece pos
  | ClearBoard
  | SetupCustomPosition "(pos \<times> PieceType) list"
  | MakeMove Move

fun apply_op :: "DabloGame \<Rightarrow> game_op \<Rightarrow> py_error + DabloGame" where
  "apply_op g (AddPiece p piece_type) = Inr (snd (add_piece g p piece_type))"
| "apply_op g (RemovePiece p) = Inr (snd (remove_piece g p))"
| "apply_op g ClearBoard = Inr (clear_board g)"
| "apply_op g (SetupCustomPosition pieces) = Inr (setup_custom_position g pieces)"
| "apply_op g (MakeMove m) =
     (case make_move g m of Inl e \<Rightarrow> Inl e | Inr (ok, info, g') \<Rightarrow> Inr g')"

fun run_ops :: "DabloGame \<Rightarrow> game_op list \<Rightarrow> py_error + DabloGame" where
  "run_ops g [] = Inr g"
| "run_ops g (x # xs) = (case apply_op g x of Inl e \<Rightarrow> Inl e | Inr g' \<Rightarrow> run_ops g' xs)"

section \<open>Small games used as concrete inputs\<close>

text \<open>
  A configuration with the smallest board and the smallest move limit that the
  validation admits, and games constructed from it through \<open>DabloGame_init\<close>. Player 1
  moves towards row 0.
\<close>

definition small_config ::
  "(PieceType \<times> pos list) list \<Rightarrow> (PieceType \<times> pos list) list \<Rightarrow> DabloConfig" where
  "small_config layout1 layout2 =
     \<lparr>board_rows = 3, board_cols = 3, move_limit = 50,
      p1_setup = layout1, p2_setup = layout2\<rparr>"

text \<open>Player 1 has a king only; player 2 a king and one warrior that the king can take.\<close>

definition last_warrior_game :: DabloGame where
  "last_warrior_game =
     DabloGame_init (small_config [(P1_KING, [(2, 0)])]
                                  [(P2_KING, [(0, 2)]), (P2_WARRIOR, [(1, 0)])]) ''default''"

definition take_last_warrior :: Move where
  "take_last_warrior = \<lparr>from_pos = (2, 0), to_pos = (0, 0), capture_pos = Some (1, 0)\<rparr>"

text \<open>A king and a warrior on each side, one move before the move limit of 50.\<close>

definition near_limit_game :: DabloGame where
  "near_limit_game =
     (DabloGame_init (small_config [(P1_KING, [(2, 0)]), (P1_WARRIOR, [(2, 1)])]
                                   [(P2_KING, [(0, 2)]), (P2_WARRIOR, [(0, 1)])]) ''default'')
       \<lparr>move_count := 49\<rparr>"

definition advance_warrior :: Move where
  "advance_warrior = \<lparr>from_pos = (2, 1), to_pos = (1, 1), capture_pos = None\<rparr>"

text \<open>A warrior of player 1 that can take two warriors of player 2 one after the other.\<close>

definition chain_game :: DabloGame where
  "chain_game =
     DabloGame_init (small_config [(P1_KING, [(2, 2)]), (P1_WARRIOR, [(2, 0)])]
                       [(P2_KING, [(0, 2)]), (P2_WARRIOR, [(3/2, 1/2), (1/2, 1/2)])])
       ''default''"

definition first_capture :: Move where
  "first_capture = \<lparr>from_pos = (2, 0), to_pos = (1, 1), capture_pos = Some (3/2, 1/2)\<rparr>"

text \<open>The king of player 1 can take the king of player 2 and then a warrior.\<close>

definition king_chain_game :: DabloGame where
  "king_chain_game =
     DabloGame_init (small_config [(P1_KING, [(2, 0)]), (P1_WARRIOR, [(2, 2)])]
                       [(P2_KING, [(1, 0)]), (P2_WARRIOR, [(0, 1)])]) ''default''"

definition take_king :: Move where
  "take_king = \<lparr>from_pos = (2, 0), to_pos = (0, 0), capture_pos = Some (1, 0)\<rparr>"

text \<open>The king of player 1 can take the king of player 2 and nothing else afterwards.\<close>

definition king_capture_game :: DabloGame where
  "king_capture_game =
     DabloGame_init (small_config [(P1_KING, [(2, 0)]), (P1_WARRIOR, [(2, 2)])]
                       [(P2_KING, [(1, 0)]), (P2_WARRIOR, [(0, 2)])]) ''default''"

text \<open>A move of the king of player 1 in \<open>chain_game\<close> to a square that is not adjacent.\<close>

definition king_leap :: Move where
  "king_leap = \<lparr>from_pos = (2, 2), to_pos = (1, 1), capture_pos = None\<rparr>"

section \<open>The king-safety term of the Smart evaluator\<close>

text \<open>
  \<^verbatim>\<open>KingSafetyConfig\<close> and \<^verbatim>\<open>DifficultySettings\<close> of \<^verbatim>\<open>ai/config.py\<close> with the values of the
  global \<^verbatim>\<open>npc_config\<close>. The floats are reals: the evaluator only compares them and
  multiplies a penalty by a weight.
\<close>

record KingSafetyConfig =
  capture_danger_penalty :: real
  immediate_threat_penalty :: real
  close_distance_penalty :: real
  medium_distance_penalty :: real
  safe_distance_bonus :: real
  very_safe_bonus :: real
  immediate_danger_threshold :: real
  close_danger_threshold :: real
  medium_safety_threshold :: real

definition npc_king_safety :: KingSafetyConfig where
  "npc_king_safety =
     \<lparr>capture_danger_penalty = - 5, immediate_threat_penalty = - 50,
      close_distance_penalty = - 4, medium_distance_penalty = - 2,
      safe_distance_bonus = 2/10, very_safe_bonus = 5/10,
      immediate_danger_threshold = 11/10, close_danger_threshold = 16/10,
      medium_safety_threshold = 25/10\<rparr>"

record DifficultySettings =
  capture_preference :: real
  king_safety :: real
  forward_progress :: real
  randomness :: real

definition medium :: DifficultySettings where
  "medium = \<lparr>capture_preference = 8/10, king_safety = 5/10, forward_progress = 5/10,
              randomness = 25/100\<rparr>"

text \<open>\<^verbatim>\<open>SmartNPCPlayer._simulate_move_on_board\<close>: \<^verbatim>\<open>pop\<close> removes the key of the from-square.\<close>

definition simulate_move_on_board :: "(pos \<times> PieceType) list \<Rightarrow> Move \<Rightarrow> (pos \<times> PieceType) list" where
  "simulate_move_on_board bs move =
     (let moving_piece = (case map_of bs (from_pos move) of None \<Rightarrow> EMPTY | Some x \<Rightarrow> x);
          new_board = AList.update (to_pos move) moving_piece (AList.delete (from_pos move) bs)
      in case capture_pos move of
           Some capture_p \<Rightarrow> AList.update capture_p EMPTY new_board
         | None \<Rightarrow> new_board)"

text \<open>
  \<^verbatim>\<open>SmartNPCPlayer._create_temp_game_state\<close>; \<open>player_id\<close> is \<^verbatim>\<open>self.player_id\<close>. The game is
  constructed with \<^verbatim>\<open>initial_state="empty"\<close> and only its \<^verbatim>\<open>board_state\<close> and
  \<^verbatim>\<open>current_player\<close> are assigned.
\<close>

definition create_temp_game_state ::
  "Player \<Rightarrow> DabloGame \<Rightarrow> (pos \<times> PieceType) list \<Rightarrow> Player option \<Rightarrow> DabloGame" where
  "create_temp_game_state player_id original_game bs player_to_move =
     (DabloGame_init (config original_game) ''empty'')
       \<lparr>board_state := bs,
        current_player := (case player_to_move of Some p \<Rightarrow> p | None \<Rightarrow> player_id)\<rparr>"

text \<open>
  \<^verbatim>\<open>SmartNPCPlayer._evaluate_king_safety\<close>; \<^verbatim>\<open>self.opponent_id\<close> is \<open>opponent player_id\<close>. The
  first loop finds the first item of the board dict that holds the own king.
\<close>

definition evaluate_king_safety ::
  "Player \<Rightarrow> DabloGame \<Rightarrow> Move \<Rightarrow> (pos \<times> PieceType) list \<Rightarrow> real" where
  "evaluate_king_safety player_id game move board_after_move =
     (let king_type = (if player_id = P1 then P1_KING else P2_KING) in
      case find (\<lambda>item. snd item = king_type) board_after_move of
        None \<Rightarrow> immediate_threat_penalty npc_king_safety
      | Some king_item \<Rightarrow>
         (let king_pos = fst king_item;
              temp_game = create_temp_game_state player_id game board_after_move
                            (Some (opponent player_id)) in
          if \<exists>opp_move\<in>set (get_all_valid_moves temp_game).
               is_capture opp_move \<and> capture_pos opp_move = Some king_pos
          then capture_danger_penalty npc_king_safety
          else
            (let enemy_positions =
                   map (\<lambda>item. distance (fst item) king_pos)
                     (filter (\<lambda>item. snd item \<noteq> EMPTY \<and>
                                (pvalue (snd item) > 0) \<noteq> (player_value player_id > 0))
                        board_after_move) in
             if enemy_positions = [] then very_safe_bonus npc_king_safety
             else
               (let min_dist = Min (set enemy_positions) in
                if min_dist < immediate_danger_threshold npc_king_safety
                then close_distance_penalty npc_king_safety
                else if min_dist < close_danger_threshold npc_king_safety
                then medium_distance_penalty npc_king_safety
                else if min_dist < medium_safety_threshold npc_king_safety
                then safe_distance_bonus npc_king_safety
                else very_safe_bonus npc_king_safety))))"

text \<open>
  The king-safety term that \<^verbatim>\<open>SmartNPCPlayer._evaluate_move\<close> adds to the score of a move:
  the value above on the simulated board, times the king-safety weight of the profile.
\<close>

definition king_safety_term :: "Player \<Rightarrow> DifficultySettings \<Rightarrow> DabloGame \<Rightarrow> Move \<Rightarrow> real" where
  "king_safety_term player_id settings game move =
     evaluate_king_safety player_id game move
       (simulate_move_on_board (board_state game) move) * king_safety settings"

text \<open>
  The king of player 1 can step next to the king of player 2, which can then take it.
\<close>

definition exposed_king_game :: DabloGame where
  "exposed_king_game =
     DabloGame_init (small_config [(P1_KING, [(3/2, 1/2)]), (P1_WARRIOR, [(2, 2)])]
                       [(P2_KING, [(0, 0)]), (P2_WARRIOR, [(0, 2)])]) ''default''"

definition king_step :: Move where
  "king_step = \<lparr>from_pos = (3/2, 1/2), to_pos = (1, 0), capture_pos = None\<rparr>"

section \<open>Properties of the board graph\<close>

lemma of_int_py_int_iff: "x = of_int (py_int x) \<longleftrightarrow> x \<in> \<int>"
proof
  assume "x = of_int (py_int x)"
  then show "x \<in> \<int>" by (metis Ints_of_int)
next
  assume "x \<in> \<int>"
  then obtain k where "x = of_int k" by (auto elim: Ints_cases)
  then show "x = of_int (py_int x)" by (simp add: py_int_def)
qed
lemma is_primary_iff: "is_primary p \<longleftrightarrow> fst p \<in> \<int> \<and> snd p \<in> \<int>"
  using of_int_py_int_iff by (simp add: is_primary_def)
lemma half_not_int: "(of_int i + 1/2 :: rat) \<notin> \<int>"
proof
  assume "(of_int i + 1/2 :: rat) \<in> \<int>"
  then obtain k :: int where k: "(of_int i + 1/2 :: rat) = of_int k"
    by (auto elim: Ints_cases)
  then have "(of_int (2 * i + 1) :: rat) = of_int (2 * k)"
    by (simp add: field_simps)
  then have "2 * i + 1 = 2 * k"
    by (simp only: of_int_eq_iff)
  then show False by presburger
qed
lemma in_concat_map: "x \<in> set (concat (map f xs)) \<longleftrightarrow> (\<exists>y\<in>set xs. x \<in> set (f y))"
  by auto

lemma all_nodes_iff:
  "p \<in> set (all_nodes rows cols) \<longleftrightarrow>
     (\<exists>i j. 0 \<le> i \<and> i < rows \<and> 0 \<le> j \<and> j < cols \<and>
        (p = (of_int i, of_int j) \<or>
         (i < rows - 1 \<and> j < cols - 1 \<and> p = (of_int i + 1/2, of_int j + 1/2))))"
  (is "?L \<longleftrightarrow> ?R")
proof
  assume ?L
  then obtain i j where "i \<in> set [0..rows - 1]" "j \<in> set [0..cols - 1]"
     "p \<in> set ((of_int i, of_int j) #
        (if i < rows - 1 \<and> j < cols - 1
         then [(of_int i + 1/2, of_int j + 1/2)] else []))"
    unfolding all_nodes_def in_concat_map by blast
  then show ?R
    by (intro exI[where x = i] exI[where x = j]) (auto split: if_splits)
next
  assume ?R
  then obtain i j where ij: "0 \<le> i" "i < rows" "0 \<le> j" "j < cols"
    and p: "p = (of_int i, of_int j) \<or>
         (i < rows - 1 \<and> j < cols - 1 \<and> p = (of_int i + 1/2, of_int j + 1/2))"
    by blast
  have i: "i \<in> set [0..rows - 1]" and j: "j \<in> set [0..cols - 1]"
    using ij by auto
  have pin: "p \<in> set ((of_int i, of_int j) #
        (if i < rows - 1 \<and> j < cols - 1
         then [(of_int i + 1/2, of_int j + 1/2)] else []))"
    using p by auto
  show ?L
    unfolding all_nodes_def in_concat_map using i j pin by blast
qed

lemma map_of_create_board_graph:
  "map_of (create_board_graph rows cols) p =
     (if p \<in> set (all_nodes rows cols)
      then Some (filter (\<lambda>n. n \<in> set (all_nodes rows cols)) (potential_neighbors p))
      else None)"
  unfolding create_board_graph_def Let_def
  by (simp add: map_of_map_restrict restrict_map_def)

lemma is_adjacent_graph_iff:
  "is_adjacent a b (create_board_graph rows cols) \<longleftrightarrow>
     a \<in> set (all_nodes rows cols) \<and> b \<in> set (all_nodes rows cols) \<and>
     b \<in> set (potential_neighbors a)"
  by (auto simp: is_adjacent_def map_of_create_board_graph)

lemma is_primary_shift:
  "is_primary (r + 1, c) = is_primary (r, c)"
  "is_primary (r - 1, c) = is_primary (r, c)"
  "is_primary (r, c + 1) = is_primary (r, c)"
  "is_primary (r, c - 1) = is_primary (r, c)"
  by (simp_all add: is_primary_iff)

lemma diagonal_potential_neighbors:
  "(r - 1/2, c - 1/2) \<in> set (potential_neighbors (r, c))"
  "(r - 1/2, c + 1/2) \<in> set (potential_neighbors (r, c))"
  "(r + 1/2, c - 1/2) \<in> set (potential_neighbors (r, c))"
  "(r + 1/2, c + 1/2) \<in> set (potential_neighbors (r, c))"
  by (simp_all add: potential_neighbors_def)

lemma orthogonal_potential_neighbors:
  assumes "is_primary (r, c)"
  shows "(r - 1, c) \<in> set (potential_neighbors (r, c))"
    "(r + 1, c) \<in> set (potential_neighbors (r, c))"
    "(r, c - 1) \<in> set (potential_neighbors (r, c))"
    "(r, c + 1) \<in> set (potential_neighbors (r, c))"
  using assms by (simp_all add: potential_neighbors_def)

lemma potential_neighbors_cases:
  assumes "b \<in> set (potential_neighbors (r, c))"
  shows "(is_primary (r, c) \<and> b \<in> {(r - 1, c), (r + 1, c), (r, c - 1), (r, c + 1)}) \<or>
     b \<in> {(r - 1/2, c - 1/2), (r - 1/2, c + 1/2), (r + 1/2, c - 1/2), (r + 1/2, c + 1/2)}"
  using assms by (auto simp add: potential_neighbors_def split: if_splits)

lemma potential_neighbors_sym:
  assumes "b \<in> set (potential_neighbors a)"
  shows "a \<in> set (potential_neighbors b)"
proof -
  obtain r c where a: "a = (r, c)" by (cases a)
  from potential_neighbors_cases[OF assms[unfolded a]]
  consider
      "is_primary (r, c)" "b = (r - 1, c)" | "is_primary (r, c)" "b = (r + 1, c)"
    | "is_primary (r, c)" "b = (r, c - 1)" | "is_primary (r, c)" "b = (r, c + 1)"
    | "b = (r - 1/2, c - 1/2)" | "b = (r - 1/2, c + 1/2)"
    | "b = (r + 1/2, c - 1/2)" | "b = (r + 1/2, c + 1/2)"
    by blast
  then show ?thesis
  proof cases
    case 1
    then show ?thesis
      using orthogonal_potential_neighbors(2)[of "r - 1" c] a by (simp add: is_primary_shift)
  next
    case 2
    then show ?thesis
      using orthogonal_potential_neighbors(1)[of "r + 1" c] a by (simp add: is_primary_shift)
  next
    case 3
    then show ?thesis
      using orthogonal_potential_neighbors(4)[of r "c - 1"] a by (simp add: is_primary_shift)
  next
    case 4
    then show ?thesis
      using orthogonal_potential_neighbors(3)[of r "c + 1"] a by (simp add: is_primary_shift)
  next
    case 5
    then show ?thesis
      using diagonal_potential_neighbors(4)[of "r - 1/2" "c - 1/2"] a by simp
  next
    case 6
    then show ?thesis
      using diagonal_potential_neighbors(3)[of "r - 1/2" "c + 1/2"] a by simp
  next
    case 7
    then show ?thesis
      using diagonal_potential_neighbors(2)[of "r + 1/2" "c - 1/2"] a by simp
  next
    case 8
    then show ?thesis
      using diagonal_potential_neighbors(1)[of "r + 1/2" "c + 1/2"] a by simp
  qed
qed

lemma graph_keys: "fst ` set (create_board_graph rows cols) = set (all_nodes rows cols)"
  by (force simp: create_board_graph_def Let_def)

text \<open>
  Claim C6. For every board size within the configured bounds (3 to 10 rows and columns)
  the graph built by \<open>create_board_graph\<close> is symmetric: for all positions \<open>A\<close> and \<open>B\<close>
  that are keys of the graph, \<open>B\<close> is in the neighbour list of \<open>A\<close> if and only if \<open>A\<close> is
  in the neighbour list of \<open>B\<close>.
\<close>

theorem board_graph_symmetric:
  assumes "3 \<le> rows" "rows \<le> 10" "3 \<le> cols" "cols \<le> 10"
    and "A \<in> fst ` set (create_board_graph rows cols)"
    and "B \<in> fst ` set (create_board_graph rows cols)"
  shows "is_adjacent A B (create_board_graph rows cols) \<longleftrightarrow>
         is_adjacent B A (create_board_graph rows cols)"
  using potential_neighbors_sym[of A B] potential_neighbors_sym[of B A]
  by (auto simp: is_adjacent_graph_iff)

lemma adjacent_difference:
  assumes "is_adjacent from_p capture_p (create_board_graph rows cols)"
  shows "(fst capture_p - fst from_p, snd capture_p - snd from_p) \<in>
     {(- 1, 0), (1, 0), (0, - 1), (0, 1),
      (- (1/2), - (1/2)), (- (1/2), 1/2), (1/2, - (1/2)), (1/2, 1/2)}"
proof -
  obtain r c where f: "from_p = (r, c)" by (cases from_p)
  from assms have "capture_p \<in> set (potential_neighbors (r, c))"
    by (simp add: is_adjacent_graph_iff f)
  from potential_neighbors_cases[OF this] show ?thesis
    unfolding f by (elim disjE conjE insertE emptyE; simp)
qed

lemma landing_by_difference:
  assumes "(dr, dc) \<in>
     {(- 1, 0), (1, 0), (0, - 1), (0, 1),
      (- (1/2), - (1/2)), (- (1/2), 1/2), (1/2, - (1/2)), (1/2, 1/2 :: rat)}"
  shows "(\<bar>dr\<bar>, \<bar>dc\<bar>) \<notin> {(1/2, 3/2), (3/2, 1/2)}" and "0 < dr\<^sup>2 + dc\<^sup>2"
  using assms by (elim insertE emptyE; clarify; simp add: power2_eq_square)+

lemma landing_of_adjacent:
  assumes "is_adjacent from_p capture_p (create_board_graph rows cols)"
  shows "calculate_capture_landing from_p capture_p =
     (fst capture_p + (fst capture_p - fst from_p), snd capture_p + (snd capture_p - snd from_p))"
  unfolding calculate_capture_landing_def Let_def
  by (simp only: landing_by_difference(1)[OF adjacent_difference[OF assms]] if_False)

lemma adjacent_distinct:
  assumes "is_adjacent from_p capture_p (create_board_graph rows cols)"
  shows "0 < (fst capture_p - fst from_p)\<^sup>2 + (snd capture_p - snd from_p)\<^sup>2"
  using landing_by_difference(2)[OF adjacent_difference[OF assms]] .

text \<open>
  Claim C7. \<open>calculate_capture_landing\<close> is a function of the pair (from, captured) alone,
  and for every from-position and every captured position adjacent to it in the board
  graph the landing lies on the line through the two, twice as far from the
  from-position in the same direction, hence strictly farther from the from-position
  than the captured position is.
\<close>

theorem capture_landing_beyond_captured:
  assumes "is_adjacent from_p capture_p (create_board_graph rows cols)"
  shows "collinear3 from_p capture_p (calculate_capture_landing from_p capture_p) \<and>
     fst (calculate_capture_landing from_p capture_p) - fst from_p
        = 2 * (fst capture_p - fst from_p) \<and>
     snd (calculate_capture_landing from_p capture_p) - snd from_p
        = 2 * (snd capture_p - snd from_p) \<and>
     distance from_p capture_p < distance from_p (calculate_capture_landing from_p capture_p)"
proof -
  let ?l = "calculate_capture_landing from_p capture_p"
  define dr dc where "dr = fst capture_p - fst from_p" and "dc = snd capture_p - snd from_p"
  have l: "fst ?l - fst from_p = 2 * dr" "snd ?l - snd from_p = 2 * dc"
    by (simp_all add: landing_of_adjacent[OF assms] dr_def dc_def)
  have col: "collinear3 from_p capture_p ?l"
    unfolding collinear3_def l dr_def[symmetric] dc_def[symmetric] by simp
  have "(fst ?l - fst from_p)\<^sup>2 + (snd ?l - snd from_p)\<^sup>2 = 4 * (dr\<^sup>2 + dc\<^sup>2)"
    unfolding l by (simp add: power2_eq_square)
  moreover have "dr\<^sup>2 + dc\<^sup>2 < 4 * (dr\<^sup>2 + dc\<^sup>2)"
    using adjacent_distinct[OF assms] by (simp add: dr_def dc_def)
  ultimately have "distance from_p capture_p < distance from_p ?l"
    unfolding distance_def dr_def[symmetric] dc_def[symmetric]
    by (simp only: real_sqrt_less_iff of_rat_less)
  with col l show ?thesis by (simp add: dr_def dc_def)
qed

subsection \<open>The board of three rows and three columns\<close>

lemma halves_not_int: "(1/2::rat) \<notin> \<int>" "(3/2::rat) \<notin> \<int>"
  using half_not_int[of 0] half_not_int[of 1] by simp_all

lemma upto_0_2: "[0..(3::int) - 1] = [0, 1, 2]"
  by (simp add: upto.simps)

lemma all_nodes_3_3:
  "all_nodes 3 3 =
     [(0, 0), (1/2, 1/2), (0, 1), (1/2, 3/2), (0, 2), (1, 0), (3/2, 1/2), (1, 1),
      (3/2, 3/2), (1, 2), (2, 0), (2, 1), (2, 2)]"
  unfolding all_nodes_def upto_0_2 by simp

lemma is_primary_3_3:
  "is_primary (0, 0)" "is_primary (0, 1)" "is_primary (0, 2)"
  "is_primary (1, 0)" "is_primary (1, 1)" "is_primary (1, 2)"
  "is_primary (2, 0)" "is_primary (2, 1)" "is_primary (2, 2)"
  "\<not> is_primary (1/2, 1/2)" "\<not> is_primary (1/2, 3/2)"
  "\<not> is_primary (3/2, 1/2)" "\<not> is_primary (3/2, 3/2)"
  by (simp_all add: is_primary_iff halves_not_int)

lemma graph_3_3:
  "create_board_graph 3 3 =
     [((0, 0), [(1, 0), (0, 1), (1/2, 1/2)]),
      ((1/2, 1/2), [(0, 0), (0, 1), (1, 0), (1, 1)]),
      ((0, 1), [(1, 1), (0, 0), (0, 2), (1/2, 1/2), (1/2, 3/2)]),
      ((1/2, 3/2), [(0, 1), (0, 2), (1, 1), (1, 2)]),
      ((0, 2), [(1, 2), (0, 1), (1/2, 3/2)]),
      ((1, 0), [(0, 0), (2, 0), (1, 1), (1/2, 1/2), (3/2, 1/2)]),
      ((3/2, 1/2), [(1, 0), (1, 1), (2, 0), (2, 1)]),
      ((1, 1), [(0, 1), (2, 1), (1, 0), (1, 2), (1/2, 1/2), (1/2, 3/2), (3/2, 1/2),
                (3/2, 3/2)]),
      ((3/2, 3/2), [(1, 1), (1, 2), (2, 1), (2, 2)]),
      ((1, 2), [(0, 2), (2, 2), (1, 1), (1/2, 3/2), (3/2, 3/2)]),
      ((2, 0), [(1, 0), (2, 1), (3/2, 1/2)]),
      ((2, 1), [(1, 1), (2, 0), (2, 2), (3/2, 1/2), (3/2, 3/2)]),
      ((2, 2), [(1, 2), (2, 1), (3/2, 3/2)])]"
  unfolding create_board_graph_def all_nodes_3_3 Let_def
  by (simp add: potential_neighbors_def is_primary_3_3)

lemma corner_adjacent_3_3: "is_adjacent (0, 0) (1/2, 1/2) (create_board_graph 3 3)"
  by (simp add: graph_3_3 is_adjacent_def)

theorem board_graph_symmetric_witness:
  "(3::int) \<le> 3 \<and> (3::int) \<le> 10 \<and>
   (0, 0) \<in> fst ` set (create_board_graph 3 3) \<and>
   (1/2, 1/2) \<in> fst ` set (create_board_graph 3 3) \<and>
   is_adjacent (0, 0) (1/2, 1/2) (create_board_graph 3 3) \<and>
   is_adjacent (1/2, 1/2) (0, 0) (create_board_graph 3 3)"
proof -
  have a: "(0, 0) \<in> fst ` set (create_board_graph 3 3)"
    and b: "(1/2, 1/2) \<in> fst ` set (create_board_graph 3 3)"
    by (simp_all add: graph_keys all_nodes_3_3)
  have "is_adjacent (0, 0) (1/2, 1/2) (create_board_graph 3 3) \<longleftrightarrow>
        is_adjacent (1/2, 1/2) (0, 0) (create_board_graph 3 3)"
    by (rule board_graph_symmetric[OF _ _ _ _ a b]) simp_all
  with a b corner_adjacent_3_3 show ?thesis by simp
qed

theorem capture_landing_beyond_captured_witness:
  "is_adjacent (0, 0) (1/2, 1/2) (create_board_graph 3 3) \<and>
   calculate_capture_landing (0, 0) (1/2, 1/2) = (1, 1) \<and>
   collinear3 (0, 0) (1/2, 1/2) (1, 1) \<and>
   distance (0, 0) (1/2, 1/2) < distance (0, 0) (1, 1)"
proof -
  have l: "calculate_capture_landing (0, 0) (1/2, 1/2) = (1, 1)"
    by (simp add: calculate_capture_landing_def)
  show ?thesis
    using capture_landing_beyond_captured[OF corner_adjacent_3_3] corner_adjacent_3_3
    unfolding l by simp
qed

section \<open>The piece sets stay in step with the board\<close>

lemma sync_fields:
  assumes "board_state g' = board_state g" "p1_pieces g' = p1_pieces g"
    "p2_pieces g' = p2_pieces g"
  shows "pieces_in_sync g' = pieces_in_sync g"
  by (simp add: pieces_in_sync_def assms)

lemma set_set_add: "set (set_add x xs) = insert x (set xs)"
  by (auto simp: set_add_def)

lemma set_set_discard: "set (set_discard x xs) = set xs - {x}"
  by (auto simp: set_discard_def)

text \<open>The list that stands for a Python set stays free of duplicates.\<close>

lemma distinct_set_add: "distinct xs \<Longrightarrow> distinct (set_add x xs)"
  by (simp add: set_add_def)

lemma distinct_set_discard: "distinct xs \<Longrightarrow> distinct (set_discard x xs)"
  by (simp add: set_discard_def distinct_removeAll)

lemma sync_add_piece:
  assumes "pieces_in_sync g"
  shows "pieces_in_sync (snd (add_piece g p piece_type))"
proof (cases "map_of (board_state g) p = Some EMPTY")
  case False
  then have "add_piece g p piece_type = (False, g)"
    by (auto simp: add_piece_def split: option.splits)
  with assms show ?thesis by simp
next
  case True
  from assms have
    "p \<in> set (p1_pieces g) \<longleftrightarrow>
       (\<exists>piece. map_of (board_state g) p = Some piece \<and> pvalue piece > 0)"
    "p \<in> set (p2_pieces g) \<longleftrightarrow>
       (\<exists>piece. map_of (board_state g) p = Some piece \<and> pvalue piece < 0)"
    unfolding pieces_in_sync_def by blast+
  with True have out: "p \<notin> set (p1_pieces g)" "p \<notin> set (p2_pieces g)"
    by simp_all
  show ?thesis
    using assms True out
    unfolding pieces_in_sync_def add_piece_def Let_def
    by (auto simp: update_conv' set_set_add)
qed

lemma sync_remove_piece:
  assumes "pieces_in_sync g"
  shows "pieces_in_sync (snd (remove_piece g p))"
  using assms
  unfolding pieces_in_sync_def remove_piece_def Let_def
  by (auto simp: update_conv' set_set_discard split: option.splits)

lemma map_of_cleared:
  "map_of (map (\<lambda>(p, _). (p, EMPTY)) bs) q = map_option (\<lambda>_. EMPTY) (map_of bs q)"
  by (induction bs) auto

lemma sync_clear_board: "pieces_in_sync (clear_board g)"
  by (auto simp: pieces_in_sync_def clear_board_def map_of_cleared)

lemma sync_add_pieces:
  assumes "pieces_in_sync g"
  shows "pieces_in_sync
     (foldl (\<lambda>g' (p, piece_type).
               if piece_type \<noteq> EMPTY then snd (add_piece g' p piece_type) else g') g pieces)"
  using assms by (induction pieces arbitrary: g) (auto simp: sync_add_piece)

lemma sync_setup_custom_position: "pieces_in_sync (setup_custom_position g pieces)"
  unfolding setup_custom_position_def by (rule sync_add_pieces[OF sync_clear_board])

lemma sync_add_positions:
  assumes "pieces_in_sync g"
  shows "pieces_in_sync (foldl (\<lambda>g'' p. snd (add_piece g'' p piece_type)) g positions)"
  using assms by (induction positions arbitrary: g) (auto simp: sync_add_piece)

lemma sync_add_setup:
  assumes "pieces_in_sync g"
  shows "pieces_in_sync (add_setup g layout)"
  using assms unfolding add_setup_def
  by (induction layout arbitrary: g) (auto simp: sync_add_positions)

lemma map_of_all_empty:
  "map_of (map (\<lambda>p. (p, EMPTY)) ks) q = (if q \<in> set ks then Some EMPTY else None)"
  by (induction ks) auto

lemma sync_setup_initial_pieces: "pieces_in_sync (setup_initial_pieces g)"
proof -
  have "pieces_in_sync (g\<lparr>board_state := map (\<lambda>p. (p, EMPTY)) (map fst (nodes g)),
                          p1_pieces := [], p2_pieces := []\<rparr>)"
    unfolding pieces_in_sync_def by (simp add: map_of_all_empty del: map_map)
  then show ?thesis
    unfolding setup_initial_pieces_def Let_def by (intro sync_add_setup)
qed

lemma sync_init: "pieces_in_sync (DabloGame_init cfg initial_state)"
  unfolding DabloGame_init_def Let_def
  by (simp add: sync_setup_initial_pieces) (simp add: pieces_in_sync_def)

lemma find_king_total:
  assumes "\<forall>p\<in>set ps. map_of bs p \<noteq> None"
  shows "\<exists>r. find_king bs king_type ps = Inr r"
  using assms by (induction ps) auto

lemma get_king_position_total:
  assumes "pieces_in_sync g"
  shows "\<exists>r. get_king_position g player = Inr r"
  unfolding get_king_position_def
  by (rule find_king_total) (use assms in \<open>auto simp: pieces_in_sync_def\<close>)

lemma check_game_state_fields:
  assumes "check_game_state g = Inr g'"
  shows "board_state g' = board_state g \<and> p1_pieces g' = p1_pieces g \<and>
         p2_pieces g' = p2_pieces g \<and> move_count g' = move_count g \<and>
         current_player g' = current_player g \<and> config g' = config g \<and>
         nodes g' = nodes g \<and> capture_sequence g' = capture_sequence g \<and>
         capturing_piece g' = capturing_piece g"
  using assms unfolding check_game_state_def Let_def end_game_def
  by (auto split: sum.splits option.splits prod.splits)

lemma check_game_state_total:
  assumes "pieces_in_sync g"
  shows "\<exists>g'. check_game_state g = Inr g'"
proof -
  obtain k1 k2 where "get_king_position g P1 = Inr k1" "get_king_position g P2 = Inr k2"
    using get_king_position_total[OF assms] by metis
  then show ?thesis
    unfolding check_game_state_def Let_def
    by (auto split: option.splits prod.splits)
qed

lemma end_turn_sync:
  assumes "pieces_in_sync g"
  shows "\<exists>r. end_turn g info = Inr r \<and> pieces_in_sync (snd (snd r))"
proof -
  let ?g = "g\<lparr>capture_sequence := False, capturing_piece := None,
               current_player := opponent (current_player g)\<rparr>"
  have s: "pieces_in_sync ?g"
    using assms by (simp add: pieces_in_sync_def)
  then obtain g' where g': "check_game_state ?g = Inr g'"
    using check_game_state_total by blast
  have "pieces_in_sync g'"
    using check_game_state_fields[OF g'] s sync_fields[of g' ?g] by simp
  with g' show ?thesis
    by (simp add: end_turn_def)
qed

lemma make_move_sync:
  assumes "pieces_in_sync g"
  shows "\<exists>r. make_move g m = Inr r \<and> pieces_in_sync (snd (snd r))"
proof (cases "game_over g")
  case True
  with assms show ?thesis by (simp add: make_move_def)
next
  case False
  obtain moving_piece g1 where r: "remove_piece g (from_pos m) = (moving_piece, g1)"
    by (cases "remove_piece g (from_pos m)")
  have s1: "pieces_in_sync g1"
    using sync_remove_piece[OF assms, of "from_pos m"] r by simp
  define g3 where "g3 = (snd (add_piece g1 (to_pos m) moving_piece))
                          \<lparr>move_count := move_count (snd (add_piece g1 (to_pos m) moving_piece)) + 1\<rparr>"
  have s3: "pieces_in_sync g3"
    using sync_add_piece[OF s1, of "to_pos m" moving_piece]
    by (simp add: g3_def pieces_in_sync_def)
  show ?thesis
  proof (cases "capture_pos m")
    case None
    with False r show ?thesis
      using end_turn_sync[OF s3]
      by (simp add: make_move_def Let_def g3_def)
  next
    case (Some capture_p)
    obtain captured g4 where r4: "remove_piece g3 capture_p = (captured, g4)"
      by (cases "remove_piece g3 capture_p")
    have s4: "pieces_in_sync g4"
      using sync_remove_piece[OF s3, of capture_p] r4 by simp
    define g5 where "g5 = g4\<lparr>last_captured_piece := Some captured\<rparr>"
    have s5: "pieces_in_sync g5"
      using s4 by (simp add: g5_def pieces_in_sync_def)
    have s6: "pieces_in_sync (g5\<lparr>capture_sequence := True, capturing_piece := Some (to_pos m)\<rparr>)"
      using s5 by (simp add: pieces_in_sync_def)
    show ?thesis
      using False r Some r4 s6 end_turn_sync[OF s5]
      by (auto simp: make_move_def Let_def g3_def[symmetric] g5_def[symmetric])
  qed
qed

lemma apply_op_sync:
  assumes "pieces_in_sync g"
  shows "\<exists>g'. apply_op g x = Inr g' \<and> pieces_in_sync g'"
proof (cases x)
  case (MakeMove m)
  then show ?thesis
    using make_move_sync[OF assms, of m] by auto
qed (simp_all add: sync_add_piece sync_remove_piece sync_clear_board
       sync_setup_custom_position assms)

lemma run_ops_sync:
  assumes "pieces_in_sync g"
  shows "\<exists>g'. run_ops g ops = Inr g' \<and> pieces_in_sync g'"
  using assms
proof (induction ops arbitrary: g)
  case Nil
  then show ?case by simp
next
  case (Cons x xs)
  from apply_op_sync[OF Cons.prems, of x]
  obtain g1 where g1: "apply_op g x = Inr g1" "pieces_in_sync g1" by blast
  from Cons.IH[OF g1(2)] g1(1) show ?case by simp
qed

text \<open>
  Claim C9. A game constructed from a valid configuration (with or without the initial
  pieces) and then mutated only through \<open>add_piece\<close>, \<open>remove_piece\<close>, \<open>clear_board\<close>,
  \<open>setup_custom_position\<close> and \<open>make_move\<close>, with any arguments and in any order, raises
  no exception and satisfies the invariant after every operation: a position is in a
  player's set if and only if the board mapping holds a piece of that player there.
\<close>

theorem public_operations_keep_sets_in_sync:
  assumes "valid_config cfg"
  shows "\<exists>g. run_ops (DabloGame_init cfg initial_state) ops = Inr g \<and> pieces_in_sync g"
  by (rule run_ops_sync[OF sync_init])

theorem public_operations_keep_sets_in_sync_witness:
  "valid_config (small_config [(P1_KING, [(2, 2)]), (P1_WARRIOR, [(2, 0)])]
                   [(P2_KING, [(0, 2)]), (P2_WARRIOR, [(3/2, 1/2), (1/2, 1/2)])]) \<and>
   (\<exists>g. run_ops chain_game
           [MakeMove first_capture, AddPiece (0, 0) P2_PRINCE, RemovePiece (2, 2),
            SetupCustomPosition [((1, 1), P1_KING), ((0, 1), P2_KING)], ClearBoard,
            AddPiece (1, 1) P2_KING] = Inr g \<and>
        pieces_in_sync g)"
proof -
  have v: "valid_config (small_config [(P1_KING, [(2, 2)]), (P1_WARRIOR, [(2, 0)])]
                   [(P2_KING, [(0, 2)]), (P2_WARRIOR, [(3/2, 1/2), (1/2, 1/2)])])"
    by (simp add: valid_config_def small_config_def)
  show ?thesis
    using v public_operations_keep_sets_in_sync[OF v, of "''default''"]
    unfolding chain_game_def by blast
qed

section \<open>Adding a piece\<close>

lemma add_piece_refused:
  assumes "map_of (board_state g) p \<noteq> Some EMPTY"
  shows "add_piece g p piece_type = (False, g)"
  using assms by (auto simp: add_piece_def split: option.splits)

lemma add_piece_placed:
  assumes "map_of (board_state g) p = Some EMPTY"
  shows "fst (add_piece g p piece_type)"
    and "map_of (board_state (snd (add_piece g p piece_type))) p = Some piece_type"
    and "pvalue piece_type > 0 \<Longrightarrow> p \<in> set (p1_pieces (snd (add_piece g p piece_type)))"
    and "pvalue piece_type < 0 \<Longrightarrow> p \<in> set (p2_pieces (snd (add_piece g p piece_type)))"
  using assms by (auto simp: add_piece_def Let_def update_conv' set_set_add)

lemma add_piece_keys:
  "fst ` set (board_state (snd (add_piece g p piece_type))) = fst ` set (board_state g)"
proof (cases "map_of (board_state g) p = Some EMPTY")
  case False
  then show ?thesis by (simp add: add_piece_refused)
next
  case True
  then have "p \<in> fst ` set (board_state g)"
    using map_of_eq_None_iff[of "board_state g" p] by simp
  then have "fst ` set (AList.update p piece_type (board_state g)) = fst ` set (board_state g)"
    unfolding dom_update by blast
  with True show ?thesis
    by (simp add: add_piece_def Let_def)
qed

lemma add_positions_keys:
  "fst ` set (board_state (foldl (\<lambda>g'' p. snd (add_piece g'' p piece_type)) g positions))
     = fst ` set (board_state g)"
  by (induction positions arbitrary: g) (simp_all add: add_piece_keys)

lemma add_setup_keys: "fst ` set (board_state (add_setup g layout)) = fst ` set (board_state g)"
  unfolding add_setup_def
  by (induction layout arbitrary: g) (simp_all add: add_positions_keys split_beta)

lemma fresh_game_keys:
  assumes "initial_state \<noteq> ''empty''"
  shows "fst ` set (board_state (DabloGame_init cfg initial_state)) =
         fst ` set (create_board_graph (board_rows cfg) (board_cols cfg))"
  using assms
  by (simp add: DabloGame_init_def setup_initial_pieces_def Let_def add_setup_keys image_image)

text \<open>
  Claim C10, as the code has it. \<open>add_piece\<close> tests the keys of the board mapping, not the
  nodes of the board graph: it returns False and leaves the whole game unchanged whenever
  the position is not a key of the board mapping or holds a non-empty piece there;
  otherwise it returns True, stores the piece at the position and adds the position to
  the set of the piece's owner. The keys of the board mapping of a game constructed with
  its initial pieces are exactly the nodes of the board graph.
\<close>

theorem add_piece_tests_board_keys:
  "(map_of (board_state g) p \<noteq> Some EMPTY \<longrightarrow> add_piece g p piece_type = (False, g)) \<and>
   (map_of (board_state g) p = Some EMPTY \<longrightarrow>
      fst (add_piece g p piece_type) \<and>
      map_of (board_state (snd (add_piece g p piece_type))) p = Some piece_type \<and>
      (pvalue piece_type > 0 \<longrightarrow> p \<in> set (p1_pieces (snd (add_piece g p piece_type)))) \<and>
      (pvalue piece_type < 0 \<longrightarrow> p \<in> set (p2_pieces (snd (add_piece g p piece_type))))) \<and>
   (initial_state \<noteq> ''empty'' \<longrightarrow>
      fst ` set (board_state (DabloGame_init cfg initial_state)) =
      fst ` set (nodes (DabloGame_init cfg initial_state)))"
proof -
  have "nodes (add_setup g' layout) = nodes g'" for g' layout
  proof -
    have a: "nodes (snd (add_piece g'' q t)) = nodes g''" for g'' q t
      by (simp add: add_piece_def Let_def split: option.splits)
    have b: "nodes (foldl (\<lambda>g'' p. snd (add_piece g'' p t)) g'' ps) = nodes g''" for g'' t ps
      by (induction ps arbitrary: g'') (simp_all add: a)
    show ?thesis
      unfolding add_setup_def by (induction layout arbitrary: g') (simp_all add: b split_beta)
  qed
  then have "nodes (DabloGame_init cfg initial_state) =
      create_board_graph (board_rows cfg) (board_cols cfg)"
    by (simp add: DabloGame_init_def setup_initial_pieces_def Let_def)
  then show ?thesis
    using add_piece_refused[of g p piece_type] add_piece_placed[of g p piece_type]
      fresh_game_keys[of initial_state cfg]
    by simp
qed

theorem add_piece_tests_board_keys_witness:
  "map_of (board_state last_warrior_game) (1, 0) \<noteq> Some EMPTY \<and>
   add_piece last_warrior_game (1, 0) P1_PRINCE = (False, last_warrior_game) \<and>
   map_of (board_state last_warrior_game) (1, 1) = Some EMPTY \<and>
   fst (add_piece last_warrior_game (1, 1) P1_PRINCE) \<and>
   map_of (board_state (snd (add_piece last_warrior_game (1, 1) P1_PRINCE))) (1, 1)
     = Some P1_PRINCE \<and>
   (1, 1) \<in> set (p1_pieces (snd (add_piece last_warrior_game (1, 1) P1_PRINCE))) \<and>
   ''default'' \<noteq> ''empty'' \<and>
   fst ` set (board_state last_warrior_game) = fst ` set (nodes last_warrior_game)"
proof -
  have occupied: "map_of (board_state last_warrior_game) (1, 0) \<noteq> Some EMPTY"
    and free: "map_of (board_state last_warrior_game) (1, 1) = Some EMPTY"
    by code_simp+
  have owner: "pvalue P1_PRINCE > 0" by simp
  show ?thesis
    using add_piece_tests_board_keys[of last_warrior_game "(1, 0)" P1_PRINCE "''default''"
        "small_config [(P1_KING, [(2, 0)])] [(P2_KING, [(0, 2)]), (P2_WARRIOR, [(1, 0)])]"]
      add_piece_tests_board_keys[of last_warrior_game "(1, 1)" P1_PRINCE "''default''"
        "small_config [(P1_KING, [(2, 0)])] [(P2_KING, [(0, 2)]), (P2_WARRIOR, [(1, 0)])]"]
      occupied free owner
    unfolding last_warrior_game_def[symmetric]
    by simp
qed

text \<open>
  Claim C10 as stated fails on a game constructed with \<^verbatim>\<open>initial_state="empty"\<close>: its board
  mapping has no keys, so \<open>add_piece\<close> returns False on the node \<open>(0, 0)\<close> of the board
  graph although no piece is there. It fails the other way after \<open>remove_piece\<close> was called
  on a position off the board, which makes that position a key: \<open>add_piece\<close> then returns
  True on \<open>(5, 5)\<close>, which is no node of the graph.
\<close>

theorem add_piece_graph_node_counterexample:
  "(0, 0) \<in> fst ` set (nodes (DabloGame_init (small_config [] []) ''empty'')) \<and>
   map_of (board_state (DabloGame_init (small_config [] []) ''empty'')) (0, 0) = None \<and>
   add_piece (DabloGame_init (small_config [] []) ''empty'') (0, 0) P1_KING
     = (False, DabloGame_init (small_config [] []) ''empty'') \<and>
   (5, 5) \<notin> fst ` set (nodes last_warrior_game) \<and>
   fst (add_piece (snd (remove_piece last_warrior_game (5, 5))) (5, 5) P1_WARRIOR)"
  by code_simp

section \<open>What a call of \<open>make_move\<close> does\<close>

lemma remove_piece_other_fields:
  "move_count (snd (remove_piece g p)) = move_count g"
  "game_over (snd (remove_piece g p)) = game_over g"
  "current_player (snd (remove_piece g p)) = current_player g"
  "config (snd (remove_piece g p)) = config g"
  "nodes (snd (remove_piece g p)) = nodes g"
  "winner (snd (remove_piece g p)) = winner g"
  "win_reason (snd (remove_piece g p)) = win_reason g"
  by (simp_all add: remove_piece_def Let_def)

lemma add_piece_other_fields:
  "move_count (snd (add_piece g p piece_type)) = move_count g"
  "game_over (snd (add_piece g p piece_type)) = game_over g"
  "current_player (snd (add_piece g p piece_type)) = current_player g"
  "config (snd (add_piece g p piece_type)) = config g"
  "nodes (snd (add_piece g p piece_type)) = nodes g"
  "winner (snd (add_piece g p piece_type)) = winner g"
  "win_reason (snd (add_piece g p piece_type)) = win_reason g"
  by (simp_all add: add_piece_def Let_def split: option.splits)

lemma make_move_finished:
  assumes "game_over g"
  shows "make_move g m =
     Inr (False,
          \<lparr>info_error = Some ''Game is over'', info_is_capture = False,
           chain_capture_available = False, piece_moved = None, captured_piece = None\<rparr>,
          g)"
  using assms by (simp add: make_move_def)

lemma end_turn_result:
  assumes "end_turn g info = Inr (ok, info', g')"
  shows "ok" and "info' = info"
    and "\<exists>gt. check_game_state gt = Inr g' \<and>
           current_player gt = opponent (current_player g) \<and>
           move_count gt = move_count g \<and> config gt = config g \<and>
           game_over gt = game_over g \<and> winner gt = winner g \<and>
           win_reason gt = win_reason g"
proof -
  let ?gt = "g\<lparr>capture_sequence := False, capturing_piece := None,
               current_player := opponent (current_player g)\<rparr>"
  from assms have r: "ok" "info' = info" "check_game_state ?gt = Inr g'"
    by (auto simp: end_turn_def split: sum.splits)
  then show "ok" "info' = info" by simp_all
  from r(3) show "\<exists>gt. check_game_state gt = Inr g' \<and>
           current_player gt = opponent (current_player g) \<and>
           move_count gt = move_count g \<and> config gt = config g \<and>
           game_over gt = game_over g \<and> winner gt = winner g \<and>
           win_reason gt = win_reason g"
    by (intro exI[where x = ?gt]) simp
qed

lemma make_move_turn_end:
  assumes "\<not> game_over g" and "make_move g m = Inr (ok, info, g')"
    and "\<not> chain_capture_available info"
  shows "\<exists>gt. check_game_state gt = Inr g' \<and> ok \<and>
           current_player gt = opponent (current_player g) \<and>
           move_count gt = move_count g + 1 \<and> config gt = config g \<and>
           \<not> game_over gt \<and> winner gt = winner g \<and> win_reason gt = win_reason g"
proof -
  define g3 where "g3 = (snd (add_piece (snd (remove_piece g (from_pos m))) (to_pos m)
                (fst (remove_piece g (from_pos m)))))
        \<lparr>move_count := move_count (snd (add_piece (snd (remove_piece g (from_pos m)))
                          (to_pos m) (fst (remove_piece g (from_pos m))))) + 1\<rparr>"
  have f3: "current_player g3 = current_player g" "move_count g3 = move_count g + 1"
    "config g3 = config g" "game_over g3 = game_over g" "winner g3 = winner g"
    "win_reason g3 = win_reason g"
    by (simp_all add: g3_def remove_piece_other_fields add_piece_other_fields)
  show ?thesis
  proof (cases "capture_pos m")
    case None
    with assms have "\<exists>i. end_turn g3 i = Inr (ok, info, g')"
      by (auto simp: make_move_def Let_def split_beta g3_def)
    then obtain i where "end_turn g3 i = Inr (ok, info, g')" ..
    from end_turn_result[OF this] assms(1) show ?thesis
      by (auto simp: f3)
  next
    case (Some capture_p)
    define g5 where "g5 = (snd (remove_piece g3 capture_p))
               \<lparr>last_captured_piece := Some (fst (remove_piece g3 capture_p))\<rparr>"
    have f5: "current_player g5 = current_player g" "move_count g5 = move_count g + 1"
      "config g5 = config g" "game_over g5 = game_over g" "winner g5 = winner g"
      "win_reason g5 = win_reason g"
      by (simp_all add: g5_def remove_piece_other_fields f3)
    from assms Some have "\<exists>i. end_turn g5 i = Inr (ok, info, g')"
      by (auto simp: make_move_def Let_def split_beta g3_def g5_def split: if_splits)
    then obtain i where "end_turn g5 i = Inr (ok, info, g')" ..
    from end_turn_result[OF this] assms(1) show ?thesis
      by (auto simp: f5)
  qed
qed

lemma make_move_chain:
  assumes "\<not> game_over g" and "make_move g m = Inr (ok, info, g')"
    and "chain_capture_available info"
  shows "ok \<and> capture_pos m \<noteq> None \<and> current_player g' = current_player g \<and>
         capture_sequence g' \<and> capturing_piece g' = Some (to_pos m) \<and>
         move_count g' = move_count g + 1 \<and> \<not> game_over g' \<and>
         winner g' = winner g \<and> win_reason g' = win_reason g"
proof -
  define g3 where "g3 = (snd (add_piece (snd (remove_piece g (from_pos m))) (to_pos m)
                (fst (remove_piece g (from_pos m)))))
        \<lparr>move_count := move_count (snd (add_piece (snd (remove_piece g (from_pos m)))
                          (to_pos m) (fst (remove_piece g (from_pos m))))) + 1\<rparr>"
  have f3: "current_player g3 = current_player g" "move_count g3 = move_count g + 1"
    "game_over g3 = game_over g" "winner g3 = winner g" "win_reason g3 = win_reason g"
    by (simp_all add: g3_def remove_piece_other_fields add_piece_other_fields)
  show ?thesis
  proof (cases "capture_pos m")
    case None
    define i0 where "i0 = \<lparr>info_error = None, info_is_capture = False,
       chain_capture_available = False,
       piece_moved = Some (fst (remove_piece g (from_pos m))), captured_piece = None\<rparr>"
    from None assms(1,2) have "end_turn g3 i0 = Inr (ok, info, g')"
      by (simp add: make_move_def Let_def split_beta g3_def i0_def)
    from end_turn_result(2)[OF this] assms(3) show ?thesis by (simp add: i0_def)
  next
    case (Some capture_p)
    define g5 where "g5 = (snd (remove_piece g3 capture_p))
               \<lparr>last_captured_piece := Some (fst (remove_piece g3 capture_p))\<rparr>"
    have f5: "current_player g5 = current_player g" "move_count g5 = move_count g + 1"
      "game_over g5 = game_over g" "winner g5 = winner g" "win_reason g5 = win_reason g"
      by (simp_all add: g5_def remove_piece_other_fields f3)
    define i1 where "i1 = \<lparr>info_error = None, info_is_capture = True,
       chain_capture_available = False,
       piece_moved = Some (fst (remove_piece g (from_pos m))),
       captured_piece = Some (fst (remove_piece g3 capture_p))\<rparr>"
    from assms(1,2) Some consider
        "end_turn g5 i1 = Inr (ok, info, g')"
      | "ok" "g' = g5\<lparr>capture_sequence := True, capturing_piece := Some (to_pos m)\<rparr>"
      by (auto simp: make_move_def Let_def split_beta g3_def g5_def i1_def split: if_splits)
    then show ?thesis
    proof cases
      case 1
      from end_turn_result(2)[OF 1] assms(3) show ?thesis by (simp add: i1_def)
    next
      case 2
      with assms(1) Some show ?thesis
        by (simp add: f5)
    qed
  qed
qed

lemma make_move_active:
  assumes "\<not> game_over g" and "make_move g m = Inr (ok, info, g')"
  shows "ok \<and> move_count g' = move_count g + 1"
proof (cases "chain_capture_available info")
  case True
  from make_move_chain[OF assms True] show ?thesis by simp
next
  case False
  from make_move_turn_end[OF assms False] obtain gt where
    gt: "check_game_state gt = Inr g'" "ok" "move_count gt = move_count g + 1"
    by blast
  with check_game_state_fields[OF gt(1)] show ?thesis by simp
qed

text \<open>
  Claim C1, as the code has it. \<open>make_move\<close> never compares the move with the legal
  move set; its only rejection is the finished game. On every game whose piece sets are
  in step with the board: if the game is over, \<open>make_move\<close> returns a failure result and
  leaves the whole state unchanged; if the game is active, \<open>make_move\<close> returns success
  for every move and the move counter is one higher after the call.
\<close>

theorem make_move_rejects_only_finished_games:
  assumes "pieces_in_sync g"
  shows "(game_over g \<longrightarrow> (\<exists>info. make_move g m = Inr (False, info, g))) \<and>
         (\<not> game_over g \<longrightarrow>
            (\<exists>info g'. make_move g m = Inr (True, info, g') \<and>
                       move_count g' = move_count g + 1))"
proof (intro conjI impI)
  assume "game_over g"
  then show "\<exists>info. make_move g m = Inr (False, info, g)"
    by (simp add: make_move_finished)
next
  assume active: "\<not> game_over g"
  from make_move_sync[OF assms, of m] obtain ok info g'
    where r: "make_move g m = Inr (ok, info, g')"
    by (metis prod_cases3)
  from make_move_active[OF active r] r
  show "\<exists>info g'. make_move g m = Inr (True, info, g') \<and> move_count g' = move_count g + 1"
    by auto
qed

lemma last_warrior_game_in_sync: "pieces_in_sync last_warrior_game"
  unfolding last_warrior_game_def by (rule sync_init)

theorem make_move_rejects_only_finished_games_witness:
  "pieces_in_sync last_warrior_game \<and> \<not> game_over last_warrior_game \<and>
   (\<exists>info g'. make_move last_warrior_game take_last_warrior = Inr (True, info, g') \<and>
              move_count g' = move_count last_warrior_game + 1) \<and>
   pieces_in_sync (end_game last_warrior_game P1 None) \<and>
   game_over (end_game last_warrior_game P1 None) \<and>
   (\<exists>info. make_move (end_game last_warrior_game P1 None) take_last_warrior
             = Inr (False, info, end_game last_warrior_game P1 None))"
proof -
  have active: "\<not> game_over last_warrior_game"
    by code_simp
  have s: "pieces_in_sync (end_game last_warrior_game P1 None)"
    using last_warrior_game_in_sync by (simp add: pieces_in_sync_def end_game_def)
  have over: "game_over (end_game last_warrior_game P1 None)"
    by (simp add: end_game_def)
  show ?thesis
    using make_move_rejects_only_finished_games[OF last_warrior_game_in_sync, of take_last_warrior]
      make_move_rejects_only_finished_games[OF s, of take_last_warrior]
      last_warrior_game_in_sync active s over
    by blast
qed

text \<open>
  Claim C1 as stated fails: in the active game \<open>chain_game\<close> the king of player 1 on
  \<open>(2, 2)\<close> has two legal moves, and the leap to \<open>(1, 1)\<close>, which is not adjacent, is
  neither; \<open>make_move\<close> nevertheless returns success, puts the king on \<open>(1, 1)\<close>, counts
  the move and passes the turn.
\<close>

theorem make_move_illegal_move_counterexample:
  "\<not> game_over chain_game \<and>
   get_all_valid_moves chain_game =
     [\<lparr>from_pos = (2, 2), to_pos = (1, 2), capture_pos = None\<rparr>,
      \<lparr>from_pos = (2, 2), to_pos = (3/2, 3/2), capture_pos = None\<rparr>,
      \<lparr>from_pos = (2, 0), to_pos = (1, 0), capture_pos = None\<rparr>,
      \<lparr>from_pos = (2, 0), to_pos = (1, 1), capture_pos = Some (3/2, 1/2)\<rparr>] \<and>
   king_leap \<notin> set (get_all_valid_moves chain_game) \<and>
   map_of (board_state chain_game) (2, 2) = Some P1_KING \<and>
   map_of (board_state chain_game) (1, 1) = Some EMPTY \<and>
   current_player chain_game = P1 \<and> move_count chain_game = 0 \<and>
   p1_pieces chain_game = [(2, 2), (2, 0)] \<and>
   make_move chain_game king_leap =
     Inr (True,
          \<lparr>info_error = None, info_is_capture = False, chain_capture_available = False,
           piece_moved = Some P1_KING, captured_piece = None\<rparr>,
          chain_game
            \<lparr>board_state := AList.update (1, 1) P1_KING
                               (AList.update (2, 2) EMPTY (board_state chain_game)),
             p1_pieces := [(2, 0), (1, 1)], current_player := P2, move_count := 1\<rparr>)"
  by code_simp

section \<open>Terminal evaluation\<close>

lemma get_king_position_fields:
  assumes "board_state g' = board_state g" "p1_pieces g' = p1_pieces g"
    "p2_pieces g' = p2_pieces g"
  shows "get_king_position g' player = get_king_position g player"
  by (simp add: get_king_position_def assms)

lemma check_game_state_p1_king_absent:
  assumes "check_game_state g = Inr g'" and "get_king_position g P1 = Inr None"
  shows "g' = end_game g P2 (Some KING_CAPTURE)"
  using assms unfolding check_game_state_def Let_def check_win_condition_def
  by (auto split: sum.splits)

lemma check_game_state_p2_king_absent:
  assumes "check_game_state g = Inr g'" and "get_king_position g P1 \<noteq> Inr None"
    and "get_king_position g P2 = Inr None"
  shows "g' = end_game g P1 (Some KING_CAPTURE)"
  using assms unfolding check_game_state_def Let_def check_win_condition_def
  by (auto split: sum.splits)

lemma check_game_state_draw:
  assumes "check_game_state g = Inr g'"
  shows "game_over g' \<longrightarrow> game_over g \<or> winner g' \<noteq> None"
  using assms unfolding check_game_state_def Let_def end_game_def
  by (auto split: sum.splits option.splits prod.splits)

text \<open>
  \<open>_check_game_state\<close> calls \<open>end_game\<close> only under \<^verbatim>\<open>if winner:\<close>, so the two draws that
  \<open>check_win_condition\<close> reports with winner \<^verbatim>\<open>None\<close> never end a game: whenever
  \<open>make_move\<close> finishes an active game, it names a winner.
\<close>

lemma make_move_never_ends_in_draw:
  assumes "\<not> game_over g" and "make_move g m = Inr (ok, info, g')" and "game_over g'"
  shows "winner g' \<noteq> None"
proof (cases "chain_capture_available info")
  case True
  from make_move_chain[OF assms(1,2) True] assms(3) show ?thesis by simp
next
  case False
  from make_move_turn_end[OF assms(1,2) False] obtain gt where
    "check_game_state gt = Inr g'" "\<not> game_over gt" by blast
  with check_game_state_draw[of gt g'] assms(3) show ?thesis by simp
qed

text \<open>
  Claim C2. The code does not do what the claim says. In \<open>last_warrior_game\<close> the legal
  capture \<open>take_last_warrior\<close> passes the turn and leaves each player with the king alone;
  \<open>check_win_condition\<close> reports the kings-only draw for that position, but the game
  after \<open>make_move\<close> is not over and has no end reason.
\<close>

theorem kings_only_draw_does_not_end_game:
  "take_last_warrior \<in> set (get_all_valid_moves last_warrior_game) \<and>
   make_move last_warrior_game take_last_warrior =
     Inr (True,
          \<lparr>info_error = None, info_is_capture = True, chain_capture_available = False,
           piece_moved = Some P1_KING, captured_piece = Some P2_WARRIOR\<rparr>,
          last_warrior_game
            \<lparr>board_state := AList.update (1, 0) EMPTY (AList.update (0, 0) P1_KING
                               (AList.update (2, 0) EMPTY (board_state last_warrior_game))),
             p1_pieces := [(0, 0)], p2_pieces := [(0, 2)], current_player := P2,
             move_count := 1, last_captured_piece := Some P2_WARRIOR\<rparr>) \<and>
   get_king_position (snd (snd (projr (make_move last_warrior_game take_last_warrior)))) P1
     = Inr (Some (0, 0)) \<and>
   get_king_position (snd (snd (projr (make_move last_warrior_game take_last_warrior)))) P2
     = Inr (Some (0, 2)) \<and>
   check_win_condition 1 1 True True 1 50 True P2 = (None, Some KINGS_ONLY_DRAW) \<and>
   game_over (snd (snd (projr (make_move last_warrior_game take_last_warrior)))) = False \<and>
   win_reason (snd (snd (projr (make_move last_warrior_game take_last_warrior)))) = None"
  by code_simp

text \<open>
  Claim C3. The move counter never decreases (\<open>make_move_active\<close>: every executed move
  adds one), but the game never enters the move-limit draw. In \<open>near_limit_game\<close> the
  counter is 49 and the limit 50; the legal move \<open>advance_warrior\<close> brings the counter to
  the limit with both kings on the board and two pieces on each side, \<open>check_win_condition\<close>
  reports the move-limit draw, and the game after \<open>make_move\<close> is not over.
\<close>

theorem move_limit_draw_does_not_end_game:
  "move_limit (config near_limit_game) = 50 \<and> move_count near_limit_game = 49 \<and>
   \<not> game_over near_limit_game \<and>
   advance_warrior \<in> set (get_all_valid_moves near_limit_game) \<and>
   make_move near_limit_game advance_warrior =
     Inr (True,
          \<lparr>info_error = None, info_is_capture = False, chain_capture_available = False,
           piece_moved = Some P1_WARRIOR, captured_piece = None\<rparr>,
          near_limit_game
            \<lparr>board_state := AList.update (1, 1) P1_WARRIOR
                               (AList.update (2, 1) EMPTY (board_state near_limit_game)),
             p1_pieces := [(2, 0), (1, 1)], current_player := P2, move_count := 50\<rparr>) \<and>
   check_win_condition 2 2 True True 50 50 True P2 = (None, Some MOVE_LIMIT) \<and>
   game_over (snd (snd (projr (make_move near_limit_game advance_warrior)))) = False \<and>
   win_reason (snd (snd (projr (make_move near_limit_game advance_warrior)))) = None"
  by code_simp

text \<open>
  Claim C4. The code does not do what the claim says. In \<open>chain_game\<close> the legal capture
  \<open>first_capture\<close> lands on \<open>(1, 1)\<close>, from where a second capture exists; the same player
  stays to move and the chain is marked, but \<open>get_all_valid_moves\<close> then returns every
  move of the piece on \<open>(1, 1)\<close>, two of which are not captures.
\<close>

theorem chain_offers_non_capturing_moves:
  "first_capture \<in> set (get_all_valid_moves chain_game) \<and>
   current_player chain_game = P1 \<and>
   make_move chain_game first_capture =
     Inr (True,
          \<lparr>info_error = None, info_is_capture = True, chain_capture_available = True,
           piece_moved = Some P1_WARRIOR, captured_piece = Some P2_WARRIOR\<rparr>,
          chain_game
            \<lparr>board_state := AList.update (3/2, 1/2) EMPTY (AList.update (1, 1) P1_WARRIOR
                               (AList.update (2, 0) EMPTY (board_state chain_game))),
             p1_pieces := [(2, 2), (1, 1)], p2_pieces := [(0, 2), (1/2, 1/2)],
             move_count := 1, last_captured_piece := Some P2_WARRIOR,
             capture_sequence := True, capturing_piece := Some (1, 1)\<rparr>) \<and>
   get_all_valid_moves (snd (snd (projr (make_move chain_game first_capture)))) =
     [\<lparr>from_pos = (1, 1), to_pos = (0, 1), capture_pos = None\<rparr>,
      \<lparr>from_pos = (1, 1), to_pos = (0, 0), capture_pos = Some (1/2, 1/2)\<rparr>,
      \<lparr>from_pos = (1, 1), to_pos = (1/2, 3/2), capture_pos = None\<rparr>] \<and>
   \<not> is_capture \<lparr>from_pos = (1, 1), to_pos = (0, 1), capture_pos = None\<rparr>"
  by code_simp

text \<open>
  Claim C5, as the code has it. The terminal evaluation runs when a move passes the turn.
  For every active game and every executed move that does not continue a capture chain:
  if the king of player 1 is absent afterwards, the game is over and player 2 has won by
  king capture; if the king of player 1 is present and the king of player 2 is absent,
  the game is over and player 1 has won by king capture. Neither the piece counts, nor
  the move counter, nor the legal moves play any part.
\<close>

theorem missing_king_decides_at_turn_end:
  assumes "\<not> game_over g" and "make_move g m = Inr (ok, info, g')"
    and "\<not> chain_capture_available info"
  shows "(get_king_position g' P1 = Inr None \<longrightarrow>
            game_over g' \<and> winner g' = Some P2 \<and> win_reason g' = Some KING_CAPTURE) \<and>
         (get_king_position g' P1 \<noteq> Inr None \<and> get_king_position g' P2 = Inr None \<longrightarrow>
            game_over g' \<and> winner g' = Some P1 \<and> win_reason g' = Some KING_CAPTURE)"
proof -
  from make_move_turn_end[OF assms] obtain gt where gt: "check_game_state gt = Inr g'"
    by blast
  from check_game_state_fields[OF gt]
  have k: "get_king_position g' player = get_king_position gt player" for player
    by (intro get_king_position_fields) simp_all
  show ?thesis
    using check_game_state_p1_king_absent[OF gt] check_game_state_p2_king_absent[OF gt]
    by (auto simp: k end_game_def)
qed

theorem missing_king_decides_at_turn_end_witness:
  "\<not> game_over king_capture_game \<and>
   make_move king_capture_game take_king =
     Inr (True,
          \<lparr>info_error = None, info_is_capture = True, chain_capture_available = False,
           piece_moved = Some P1_KING, captured_piece = Some P2_KING\<rparr>,
          snd (snd (projr (make_move king_capture_game take_king)))) \<and>
   \<not> chain_capture_available
       \<lparr>info_error = None, info_is_capture = True, chain_capture_available = False,
        piece_moved = Some P1_KING, captured_piece = Some P2_KING\<rparr> \<and>
   get_king_position (snd (snd (projr (make_move king_capture_game take_king)))) P1
     \<noteq> Inr None \<and>
   get_king_position (snd (snd (projr (make_move king_capture_game take_king)))) P2
     = Inr None \<and>
   game_over (snd (snd (projr (make_move king_capture_game take_king)))) \<and>
   winner (snd (snd (projr (make_move king_capture_game take_king)))) = Some P1 \<and>
   win_reason (snd (snd (projr (make_move king_capture_game take_king))))
     = Some KING_CAPTURE"
proof -
  have active: "\<not> game_over king_capture_game"
    by code_simp
  have run: "make_move king_capture_game take_king =
     Inr (True,
          \<lparr>info_error = None, info_is_capture = True, chain_capture_available = False,
           piece_moved = Some P1_KING, captured_piece = Some P2_KING\<rparr>,
          snd (snd (projr (make_move king_capture_game take_king))))"
    by code_simp
  have kings:
    "get_king_position (snd (snd (projr (make_move king_capture_game take_king)))) P1
       \<noteq> Inr None"
    "get_king_position (snd (snd (projr (make_move king_capture_game take_king)))) P2
       = Inr None"
    by code_simp+
  show ?thesis
    using missing_king_decides_at_turn_end[OF active run] active run kings
    by simp
qed

text \<open>
  Claim C5 as stated fails while a capture chain continues: in \<open>king_chain_game\<close> the
  legal capture \<open>take_king\<close> removes the king of player 2 and lands where a further
  capture exists, so \<open>make_move\<close> returns before the terminal evaluation. The king of
  player 2 is then absent from the board and the game is not over.
\<close>

theorem king_taken_in_mid_chain_counterexample:
  "take_king \<in> set (get_all_valid_moves king_chain_game) \<and>
   \<not> game_over king_chain_game \<and>
   get_king_position king_chain_game P2 = Inr (Some (1, 0)) \<and>
   make_move king_chain_game take_king =
     Inr (True,
          \<lparr>info_error = None, info_is_capture = True, chain_capture_available = True,
           piece_moved = Some P1_KING, captured_piece = Some P2_KING\<rparr>,
          king_chain_game
            \<lparr>board_state := AList.update (1, 0) EMPTY (AList.update (0, 0) P1_KING
                               (AList.update (2, 0) EMPTY (board_state king_chain_game))),
             p1_pieces := [(2, 2), (0, 0)], p2_pieces := [(0, 1)],
             move_count := 1, last_captured_piece := Some P2_KING,
             capture_sequence := True, capturing_piece := Some (0, 0)\<rparr>) \<and>
   get_king_position (snd (snd (projr (make_move king_chain_game take_king)))) P2
     = Inr None \<and>
   map_of (board_state (snd (snd (projr (make_move king_chain_game take_king))))) (1, 0)
     = Some EMPTY \<and>
   game_over (snd (snd (projr (make_move king_chain_game take_king)))) = False \<and>
   winner (snd (snd (projr (make_move king_chain_game take_king)))) = None"
  by code_simp

section \<open>The capture-danger check of the Smart evaluator\<close>

text \<open>
  The temporary game is constructed empty, and \<open>create_temp_game_state\<close> assigns its
  board but not its piece sets; \<open>get_all_valid_moves\<close> iterates the piece set of the
  player to move, so it returns no move on any board.
\<close>

lemma temp_game_has_no_moves:
  "get_all_valid_moves (create_temp_game_state player_id g bs player_to_move) = []"
  by (simp add: create_temp_game_state_def DabloGame_init_def get_all_valid_moves_def)

lemma evaluate_king_safety_never_capture_danger:
  "evaluate_king_safety player_id g m bs \<noteq> capture_danger_penalty npc_king_safety"
  unfolding evaluate_king_safety_def Let_def temp_game_has_no_moves
  by (simp add: npc_king_safety_def split: option.splits)

lemma exposed_king_simulated:
  "simulate_move_on_board (board_state exposed_king_game) king_step =
     [((0, 0), P2_KING), ((1/2, 1/2), EMPTY), ((0, 1), EMPTY), ((1/2, 3/2), EMPTY),
      ((0, 2), P2_WARRIOR), ((1, 0), P1_KING), ((1, 1), EMPTY), ((3/2, 3/2), EMPTY),
      ((1, 2), EMPTY), ((2, 0), EMPTY), ((2, 1), EMPTY), ((2, 2), P1_WARRIOR)]"
  by code_simp

lemma exposed_king_safety:
  "evaluate_king_safety P1 exposed_king_game king_step
     (simulate_move_on_board (board_state exposed_king_game) king_step)
   = close_distance_penalty npc_king_safety"
  unfolding exposed_king_simulated evaluate_king_safety_def Let_def temp_game_has_no_moves
  by (simp add: distance_def npc_king_safety_def min_def)

text \<open>
  Claim C8. The code does not do what the claim says. In \<open>exposed_king_game\<close> the legal
  move \<open>king_step\<close> of player 1 puts its king on \<open>(1, 0)\<close>, next to the king of player 2
  on \<open>(0, 0)\<close> with the square \<open>(2, 0)\<close> behind it empty. The king survives the simulated
  move, and the opponent's reply that takes it is legal in the game after the move and
  in the simulated position once the opponent's piece set is filled in. The temporary
  game of the evaluator has no moves at all, so the capture-danger check finds nothing
  and the king-safety term is the close-distance penalty times the weight, not the
  capture-danger penalty times the weight.
\<close>

theorem capture_danger_penalty_not_applied:
  "king_step \<in> set (get_all_valid_moves exposed_king_game) \<and>
   find (\<lambda>item. snd item = P1_KING)
     (simulate_move_on_board (board_state exposed_king_game) king_step)
     = Some ((1, 0), P1_KING) \<and>
   \<lparr>from_pos = (0, 0), to_pos = (2, 0), capture_pos = Some (1, 0)\<rparr>
     \<in> set (get_all_valid_moves (snd (snd (projr (make_move exposed_king_game king_step))))) \<and>
   \<lparr>from_pos = (0, 0), to_pos = (2, 0), capture_pos = Some (1, 0)\<rparr>
     \<in> set (get_all_valid_moves
         ((create_temp_game_state P1 exposed_king_game
             (simulate_move_on_board (board_state exposed_king_game) king_step) (Some P2))
           \<lparr>p2_pieces := [(0, 0), (0, 2)]\<rparr>)) \<and>
   get_all_valid_moves
     (create_temp_game_state P1 exposed_king_game
        (simulate_move_on_board (board_state exposed_king_game) king_step) (Some P2)) = [] \<and>
   king_safety_term P1 medium exposed_king_game king_step = - 2 \<and>
   capture_danger_penalty npc_king_safety * king_safety medium = - (5/2)"
proof -
  have legal: "king_step \<in> set (get_all_valid_moves exposed_king_game)"
    by code_simp
  have king: "find (\<lambda>item. snd item = P1_KING)
     (simulate_move_on_board (board_state exposed_king_game) king_step)
     = Some ((1, 0), P1_KING)"
    by code_simp
  have reply: "\<lparr>from_pos = (0, 0), to_pos = (2, 0), capture_pos = Some (1, 0)\<rparr>
     \<in> set (get_all_valid_moves (snd (snd (projr (make_move exposed_king_game king_step)))))"
    by code_simp
  have reply_simulated: "\<lparr>from_pos = (0, 0), to_pos = (2, 0), capture_pos = Some (1, 0)\<rparr>
     \<in> set (get_all_valid_moves
         ((create_temp_game_state P1 exposed_king_game
             (simulate_move_on_board (board_state exposed_king_game) king_step) (Some P2))
           \<lparr>p2_pieces := [(0, 0), (0, 2)]\<rparr>))"
    by code_simp
  have "king_safety_term P1 medium exposed_king_game king_step = - 2"
    unfolding king_safety_term_def exposed_king_safety
    by (simp add: npc_king_safety_def medium_def)
  moreover have "capture_danger_penalty npc_king_safety * king_safety medium = - (5/2)"
    by (simp add: npc_king_safety_def medium_def)
  ultimately show ?thesis
    using legal king reply reply_simulated temp_game_has_no_moves by simp
qed

end
